theory Spec2Isabelle
  imports Complex_Main
begin

section \<open>Numbers\<close>

text \<open>
  A float64 value is a finite number or one of the IEEE special values. Comparisons and
  the absolute value are exact on float64 values and are defined here; negative zero is
  not told apart from zero. What an arithmetic operation or a statistic returns is
  rounded, and how it is rounded belongs to numpy and pandas, not to the program: these
  are a parameter of the model (the record \<open>numlib\<close> below), and what is proved of the
  program is proved for every such library.
\<close>

datatype num = Fin real | PInf | NInf | NaN

fun nabs :: "num \<Rightarrow> num" where
  "nabs (Fin a) = Fin \<bar>a\<bar>"
| "nabs PInf = PInf"
| "nabs NInf = PInf"
| "nabs NaN = NaN"

text \<open>Every comparison with NaN is False.\<close>

fun nlt :: "num \<Rightarrow> num \<Rightarrow> bool" where
  "nlt NaN _ = False"
| "nlt _ NaN = False"
| "nlt (Fin a) (Fin b) = (a < b)"
| "nlt _ NInf = False"
| "nlt PInf _ = False"
| "nlt _ _ = True"

definition ngt :: "num \<Rightarrow> num \<Rightarrow> bool" where
  "ngt a b = nlt b a"


section \<open>The numeric library\<close>

datatype error = KeyError string | UnboundLocalError string | TypeError

text \<open>
  The result of \<open>describe()\<close> on a numeric column, and its entries in the order in which
  \<open>describe()\<close> lists them (\<open>iloc\<close> reads them by position).
\<close>

record describe_result =
  d_count :: num
  d_mean :: num
  d_std :: num
  d_min :: num
  d_q25 :: num
  d_q50 :: num
  d_q75 :: num
  d_max :: num

definition describe_entries :: "describe_result \<Rightarrow> num list" where
  "describe_entries d =
     [d_count d, d_mean d, d_std d, d_min d, d_q25 d, d_q50 d, d_q75 d, d_max d]"

text \<open>
  The library: float64 addition, subtraction, multiplication and division, \<open>np.mean\<close>
  and \<open>np.std\<close> of a column (\<open>np.std\<close> with numpy's default of zero delta degrees of
  freedom, the population standard deviation), \<open>describe()\<close> of a column, and what the
  assignment of a float64 value under a mask does to a column of dtype int64: it raises,
  or it gives the new values of the column and tells whether the column is still int64.
\<close>

record numlib =
  lib_add :: "num \<Rightarrow> num \<Rightarrow> num"
  lib_sub :: "num \<Rightarrow> num \<Rightarrow> num"
  lib_mul :: "num \<Rightarrow> num \<Rightarrow> num"
  lib_div :: "num \<Rightarrow> num \<Rightarrow> num"
  lib_mean :: "num list \<Rightarrow> num"
  lib_std :: "num list \<Rightarrow> num"
  lib_describe :: "num list \<Rightarrow> describe_result"
  lib_int_setitem :: "bool list \<Rightarrow> num \<Rightarrow> num list \<Rightarrow> error + bool \<times> num list"


section \<open>Data frames\<close>

type_synonym label = int

text \<open>
  A data frame: the row labels, the named columns in their order, and the names of the
  columns whose dtype is int64 (the other columns are float64). A series is a column with
  the row labels.
\<close>

record dataframe =
  df_index :: "label list"
  df_columns :: "(string \<times> num list) list"
  df_int_columns :: "string list"

type_synonym series = "(label \<times> num) list"

definition wf_df :: "dataframe \<Rightarrow> bool" where
  "wf_df df \<longleftrightarrow>
     distinct (map fst (df_columns df)) \<and>
     list_all (\<lambda>(n, vs). length vs = length (df_index df)) (df_columns df)"

text \<open>\<open>df[column]\<close>\<close>

definition getitem :: "dataframe \<Rightarrow> string \<Rightarrow> error + series" where
  "getitem df c =
     (case map_of (df_columns df) c of
        None \<Rightarrow> Inl (KeyError c)
      | Some vs \<Rightarrow> Inr (zip (df_index df) vs))"

text \<open>\<open>xs[msk]\<close>: the entries at the positions where the mask is True.\<close>

definition select :: "bool list \<Rightarrow> 'a list \<Rightarrow> 'a list" where
  "select msk xs = map snd (filter fst (zip msk xs))"

text \<open>\<open>df.drop(index=labels, inplace=True)\<close>: every row with one of the labels goes.\<close>

definition drop_rows :: "dataframe \<Rightarrow> label list \<Rightarrow> dataframe" where
  "drop_rows df labels =
     (let keep = map (\<lambda>r. r \<notin> set labels) (df_index df)
      in \<lparr>df_index = select keep (df_index df),
          df_columns = map (\<lambda>(n, vs). (n, select keep vs)) (df_columns df),
          df_int_columns = df_int_columns df\<rparr>)"

text \<open>
  \<open>df.loc[msk, column] = x\<close>. A float64 column takes any float64 value at the rows of
  the mask. For an int64 column the library decides.
\<close>

fun put_where :: "bool list \<Rightarrow> num \<Rightarrow> num list \<Rightarrow> num list" where
  "put_where (m # ms) u (v # vs) = (if m then u else v) # put_where ms u vs"
| "put_where _ u vs = vs"

definition set_column :: "dataframe \<Rightarrow> string \<Rightarrow> num list \<Rightarrow> dataframe" where
  "set_column df c ws =
     df\<lparr>df_columns := map (\<lambda>(n, vs). if n = c then (n, ws) else (n, vs)) (df_columns df)\<rparr>"

definition loc_assign :: "numlib \<Rightarrow> dataframe \<Rightarrow> bool list \<Rightarrow> string \<Rightarrow> num
    \<Rightarrow> error + dataframe" where
  "loc_assign L df msk c x =
     (case map_of (df_columns df) c of
        None \<Rightarrow> Inl (KeyError c)
      | Some vs \<Rightarrow>
          if c \<in> set (df_int_columns df) then
            (case lib_int_setitem L msk x vs of
               Inl e \<Rightarrow> Inl e
             | Inr (still_int, ws) \<Rightarrow>
                 Inr ((set_column df c ws)
                   \<lparr>df_int_columns :=
                      if still_int then df_int_columns df
                      else removeAll c (df_int_columns df)\<rparr>))
          else Inr (set_column df c (put_where msk x vs)))"


section \<open>Column selectors and printed output\<close>

datatype selector = Str string | Lst "string list"

fun normalize_columns :: "dataframe \<Rightarrow> selector \<Rightarrow> string list" where
  "normalize_columns df (Str s) =
     (if s = ''all_the_columns'' then map fst (df_columns df) else [s])"
| "normalize_columns df (Lst cs) = cs"

type_synonym z_outliers = "(label \<times> num \<times> num) list"
type_synonym iqr_outliers = "(label \<times> num) list"

datatype outliers = ZOut z_outliers | IQROut iqr_outliers

fun out_index :: "outliers \<Rightarrow> label list" where
  "out_index (ZOut rows) = map fst rows"
| "out_index (IQROut rows) = map fst rows"

text \<open>What the functions print, one event for each report.\<close>

datatype event =
    ZReport string num num z_outliers
  | IQRReport string num num iqr_outliers
  | Removed outliers
  | Compressed string outliers
  | Separator


section \<open>outliers_z_score\<close>

definition z_calc :: "numlib \<Rightarrow> series \<Rightarrow> num \<times> num \<times> z_outliers" where
  "z_calc L feature =
     (let vs = map snd feature;
          mean = lib_mean L vs;
          stdev = lib_std L vs;
          lower = lib_add L (lib_mul L (Fin (- 3)) stdev) mean;
          upper = lib_add L (lib_mul L (Fin 3) stdev) mean;
          Z = map (\<lambda>v. lib_div L (lib_sub L v mean) stdev) vs;
          msk = map (\<lambda>z. ngt (nabs z) (Fin 3)) Z;
          outliers_with_z = zip (map fst (select msk feature)) (zip (select msk vs) (select msk Z))
      in (upper, lower, outliers_with_z))"

fun z_loop :: "numlib \<Rightarrow> dataframe \<Rightarrow> string \<Rightarrow> string list \<Rightarrow> event list
    \<Rightarrow> (error + (num \<times> num \<times> z_outliers) option) \<times> event list" where
  "z_loop L df mode [] out = (Inr None, out)"
| "z_loop L df mode (column # columns) out =
     (case getitem df column of
        Inl e \<Rightarrow> (Inl e, out)
      | Inr feature \<Rightarrow>
          (case z_calc L feature of (upper, lower, outliers_with_z) \<Rightarrow>
             if mode = ''return'' then (Inr (Some (upper, lower, outliers_with_z)), out)
             else z_loop L df mode columns (out @ [ZReport column lower upper outliers_with_z])))"

definition outliers_z_score :: "numlib \<Rightarrow> dataframe \<Rightarrow> selector \<Rightarrow> string
    \<Rightarrow> (error + (num \<times> num \<times> z_outliers) option) \<times> event list" where
  "outliers_z_score L df columns mode = z_loop L df mode (normalize_columns df columns) []"


section \<open>outliers_IQR\<close>

text \<open>\<open>q1, q3 = feature.describe().iloc[[4, 6]]\<close> reads the entries at positions 4 and 6.\<close>

definition iqr_calc :: "numlib \<Rightarrow> series \<Rightarrow> num \<times> num \<times> iqr_outliers" where
  "iqr_calc L feature =
     (let vs = map snd feature;
          q1 = describe_entries (lib_describe L vs) ! 4;
          q3 = describe_entries (lib_describe L vs) ! 6;
          iqr = lib_sub L q3 q1;
          upper = lib_add L q3 (lib_mul L (Fin (3 / 2)) iqr);
          lower = lib_sub L q1 (lib_mul L (Fin (3 / 2)) iqr);
          msk = map (\<lambda>v. nlt v lower \<or> ngt v upper) vs;
          outliers_with_IQR = select msk feature
      in (upper, lower, outliers_with_IQR))"

fun iqr_loop :: "numlib \<Rightarrow> dataframe \<Rightarrow> string \<Rightarrow> string list \<Rightarrow> event list
    \<Rightarrow> (error + (num \<times> num \<times> iqr_outliers) option) \<times> event list" where
  "iqr_loop L df mode [] out = (Inr None, out)"
| "iqr_loop L df mode (column # columns) out =
     (case getitem df column of
        Inl e \<Rightarrow> (Inl e, out)
      | Inr feature \<Rightarrow>
          (case iqr_calc L feature of (upper, lower, outliers_with_IQR) \<Rightarrow>
             if mode = ''return'' then (Inr (Some (upper, lower, outliers_with_IQR)), out)
             else iqr_loop L df mode columns (out @ [IQRReport column lower upper outliers_with_IQR])))"

definition outliers_IQR :: "numlib \<Rightarrow> dataframe \<Rightarrow> selector \<Rightarrow> string
    \<Rightarrow> (error + (num \<times> num \<times> iqr_outliers) option) \<times> event list" where
  "outliers_IQR L df columns mode = iqr_loop L df mode (normalize_columns df columns) []"


section \<open>handle_outliers\<close>

text \<open>
  \<open>using.strip().upper()\<close>. Strings are 8-bit; no character outside ASCII has one of
  the letters of \<open>IQR\<close> or \<open>Z\<close> as its upper case in that range, so only ASCII letters
  are converted.
\<close>

definition is_space :: "char \<Rightarrow> bool" where
  "is_space c \<longleftrightarrow>
     c \<in> set [CHR 0x09, CHR 0x0A, CHR 0x0B, CHR 0x0C, CHR 0x0D, CHR 0x1C, CHR 0x1D,
              CHR 0x1E, CHR 0x1F, CHR 0x20, CHR 0x85, CHR 0xA0]"

definition str_strip :: "string \<Rightarrow> string" where
  "str_strip s = rev (dropWhile is_space (rev (dropWhile is_space s)))"

definition upper_char :: "char \<Rightarrow> char" where
  "upper_char c =
     (case map_of (zip ''abcdefghijklmnopqrstuvwxyz'' ''ABCDEFGHIJKLMNOPQRSTUVWXYZ'') c of
        None \<Rightarrow> c
      | Some u \<Rightarrow> u)"

definition str_upper :: "string \<Rightarrow> string" where
  "str_upper s = map upper_char s"

text \<open>
  The state of a call: the data frame (mutated in place), the local variables \<open>upper\<close>,
  \<open>lower\<close> and \<open>outliers\<close> (unbound until one of the two method branches binds them),
  and the printed output.
\<close>

record hstate =
  st_df :: dataframe
  st_locals :: "(num \<times> num \<times> outliers) option"
  st_out :: "event list"

text \<open>
  Statements in sequence: the first one that raises ends the call, with the state as
  the statements before it left it.
\<close>

fun seq :: "('s \<Rightarrow> error + 's) list \<Rightarrow> 's \<Rightarrow> error option \<times> 's" where
  "seq [] s = (None, s)"
| "seq (f # fs) s = (case f s of Inl e \<Rightarrow> (Some e, s) | Inr s' \<Rightarrow> seq fs s')"

definition if_IQR :: "numlib \<Rightarrow> string \<Rightarrow> string \<Rightarrow> hstate \<Rightarrow> error + hstate" where
  "if_IQR L using column s =
     (if str_upper (str_strip using) = ''IQR'' then
        (case outliers_IQR L (st_df s) (Str column) ''return'' of
           (Inl e, out) \<Rightarrow> Inl e
         | (Inr None, out) \<Rightarrow> Inl TypeError
         | (Inr (Some (upper, lower, outliers)), out) \<Rightarrow>
             Inr (s\<lparr>st_locals := Some (upper, lower, IQROut outliers),
                    st_out := st_out s @ out\<rparr>))
      else Inr s)"

definition if_Z :: "numlib \<Rightarrow> string \<Rightarrow> string \<Rightarrow> hstate \<Rightarrow> error + hstate" where
  "if_Z L using column s =
     (if str_upper (str_strip using) = ''Z'' then
        (case outliers_z_score L (st_df s) (Str column) ''return'' of
           (Inl e, out) \<Rightarrow> Inl e
         | (Inr None, out) \<Rightarrow> Inl TypeError
         | (Inr (Some (upper, lower, outliers)), out) \<Rightarrow>
             Inr (s\<lparr>st_locals := Some (upper, lower, ZOut outliers),
                    st_out := st_out s @ out\<rparr>))
      else Inr s)"

definition if_remove :: "string \<Rightarrow> hstate \<Rightarrow> error + hstate" where
  "if_remove action s =
     (if action = ''remove'' then
        (case st_locals s of
           None \<Rightarrow> Inl (UnboundLocalError ''outliers'')
         | Some (upper, lower, outliers) \<Rightarrow>
             Inr (s\<lparr>st_df := drop_rows (st_df s) (out_index outliers),
                    st_out := st_out s @ [Removed outliers]\<rparr>))
      else Inr s)"

text \<open>
  The two assignments of the compress branch. The right-hand side is evaluated first,
  then \<open>df[column]\<close> for the mask, then the assignment is made.
\<close>

definition clamp_upper :: "numlib \<Rightarrow> string \<Rightarrow> hstate \<Rightarrow> error + hstate" where
  "clamp_upper L column s =
     (case st_locals s of
        None \<Rightarrow> Inl (UnboundLocalError ''upper'')
      | Some (upper, lower, outliers) \<Rightarrow>
          (case getitem (st_df s) column of
             Inl e \<Rightarrow> Inl e
           | Inr feature \<Rightarrow>
               (case loc_assign L (st_df s) (map (\<lambda>(r, v). ngt v upper) feature) column upper of
                  Inl e \<Rightarrow> Inl e
                | Inr df' \<Rightarrow> Inr (s\<lparr>st_df := df'\<rparr>))))"

definition clamp_lower :: "numlib \<Rightarrow> string \<Rightarrow> hstate \<Rightarrow> error + hstate" where
  "clamp_lower L column s =
     (case st_locals s of
        None \<Rightarrow> Inl (UnboundLocalError ''lower'')
      | Some (upper, lower, outliers) \<Rightarrow>
          (case getitem (st_df s) column of
             Inl e \<Rightarrow> Inl e
           | Inr feature \<Rightarrow>
               (case loc_assign L (st_df s) (map (\<lambda>(r, v). nlt v lower) feature) column lower of
                  Inl e \<Rightarrow> Inl e
                | Inr df' \<Rightarrow> Inr (s\<lparr>st_df := df'\<rparr>))))"

definition print_compressed :: "string \<Rightarrow> hstate \<Rightarrow> error + hstate" where
  "print_compressed column s =
     (case st_locals s of
        None \<Rightarrow> Inl (UnboundLocalError ''outliers'')
      | Some (upper, lower, outliers) \<Rightarrow>
          Inr (s\<lparr>st_out := st_out s @ [Compressed column outliers]\<rparr>))"

definition if_compress :: "numlib \<Rightarrow> string \<Rightarrow> string \<Rightarrow> hstate \<Rightarrow> error option \<times> hstate" where
  "if_compress L action column s =
     (if action = ''compress''
      then seq [clamp_upper L column, clamp_lower L column, print_compressed column] s
      else (None, s))"

definition print_separator :: "hstate \<Rightarrow> error + hstate" where
  "print_separator s = Inr (s\<lparr>st_out := st_out s @ [Separator]\<rparr>)"

text \<open>The body of the loop, for one column.\<close>

definition handle_column :: "numlib \<Rightarrow> string \<Rightarrow> string \<Rightarrow> string \<Rightarrow> hstate \<Rightarrow> error option \<times> hstate" where
  "handle_column L using action column s =
     (case seq [if_IQR L using column, if_Z L using column, if_remove action] s of
        (Some e, s') \<Rightarrow> (Some e, s')
      | (None, s') \<Rightarrow>
          (case if_compress L action column s' of
             (Some e, s'') \<Rightarrow> (Some e, s'')
           | (None, s'') \<Rightarrow> seq [print_separator] s''))"

fun handle_loop :: "numlib \<Rightarrow> string \<Rightarrow> string \<Rightarrow> string list \<Rightarrow> hstate \<Rightarrow> error option \<times> hstate" where
  "handle_loop L using action [] s = (None, s)"
| "handle_loop L using action (column # columns) s =
     (case handle_column L using action column s of
        (Some e, s') \<Rightarrow> (Some e, s')
      | (None, s') \<Rightarrow> handle_loop L using action columns s')"

fun to_list :: "selector \<Rightarrow> string list" where
  "to_list (Str s) = [s]"
| "to_list (Lst cs) = cs"

text \<open>
  The result of a call: the exception raised, if any, the data frame as the call left
  it, and what was printed.
\<close>

definition handle_outliers :: "numlib \<Rightarrow> dataframe \<Rightarrow> selector \<Rightarrow> string \<Rightarrow> string
    \<Rightarrow> error option \<times> dataframe \<times> event list" where
  "handle_outliers L df columns using action =
     (case handle_loop L using action (to_list columns)
             \<lparr>st_df = df, st_locals = None, st_out = []\<rparr> of
        (e, s) \<Rightarrow> (e, st_df s, st_out s))"

text \<open>
  The local variables as the two method branches leave them, on a fresh call: the bounds
  and the outliers of the chosen method, or nothing when the method is not recognised or
  the outlier function raised.
\<close>

definition detect :: "numlib \<Rightarrow> string \<Rightarrow> dataframe \<Rightarrow> string \<Rightarrow> (num \<times> num \<times> outliers) option" where
  "detect L using df column =
     (case seq [if_IQR L using column, if_Z L using column]
             \<lparr>st_df = df, st_locals = None, st_out = []\<rparr> of
        (None, s) \<Rightarrow> st_locals s
      | (Some e, s) \<Rightarrow> None)"

text \<open>\<open>df.loc[r, column]\<close> where the row and the column exist.\<close>

definition cell :: "dataframe \<Rightarrow> string \<Rightarrow> label \<Rightarrow> num option" where
  "cell df column r =
     (case map_of (df_columns df) column of
        None \<Rightarrow> None
      | Some vs \<Rightarrow> map_of (zip (df_index df) vs) r)"


text \<open>
  Clamping a column from above and from below, and a data frame with one column rewritten:
  what the two assignments of the compress branch amount to on a float64 column.
\<close>

definition clip_above :: "num \<Rightarrow> num list \<Rightarrow> num list" where
  "clip_above x vs = map (\<lambda>v. if ngt v x then x else v) vs"

definition clip_below :: "num \<Rightarrow> num list \<Rightarrow> num list" where
  "clip_below x vs = map (\<lambda>v. if nlt v x then x else v) vs"

definition map_column :: "dataframe \<Rightarrow> string \<Rightarrow> (num list \<Rightarrow> num list) \<Rightarrow> dataframe" where
  "map_column df c f =
     df\<lparr>df_columns := map (\<lambda>(n, vs). if n = c then (n, f vs) else (n, vs)) (df_columns df)\<rparr>"


section \<open>A library for the examples\<close>

text \<open>
  The examples below are evaluated with exact arithmetic on the finite numbers, extended
  to the special values as IEEE does. On the example data every sum, product, quotient
  and square root is a float64 value, so that float64 arithmetic computes the same
  numbers. No theorem about an arbitrary library depends on these definitions.
\<close>

fun nneg :: "num \<Rightarrow> num" where
  "nneg (Fin a) = Fin (- a)"
| "nneg PInf = NInf"
| "nneg NInf = PInf"
| "nneg NaN = NaN"

fun nadd :: "num \<Rightarrow> num \<Rightarrow> num" where
  "nadd (Fin a) (Fin b) = Fin (a + b)"
| "nadd NaN _ = NaN"
| "nadd _ NaN = NaN"
| "nadd PInf NInf = NaN"
| "nadd NInf PInf = NaN"
| "nadd PInf _ = PInf"
| "nadd NInf _ = NInf"
| "nadd (Fin a) b = b"

definition nsub :: "num \<Rightarrow> num \<Rightarrow> num" where
  "nsub a b = nadd a (nneg b)"

fun nmul :: "num \<Rightarrow> num \<Rightarrow> num" where
  "nmul (Fin a) (Fin b) = Fin (a * b)"
| "nmul NaN _ = NaN"
| "nmul _ NaN = NaN"
| "nmul (Fin a) b = (if a = 0 then NaN else if (0 < a) = (b = PInf) then PInf else NInf)"
| "nmul a (Fin b) = (if b = 0 then NaN else if (0 < b) = (a = PInf) then PInf else NInf)"
| "nmul a b = (if a = b then PInf else NInf)"

fun ndiv :: "num \<Rightarrow> num \<Rightarrow> num" where
  "ndiv NaN _ = NaN"
| "ndiv _ NaN = NaN"
| "ndiv (Fin a) (Fin b) =
     (if b \<noteq> 0 then Fin (a / b)
      else if a = 0 then NaN
      else if 0 < a then PInf else NInf)"
| "ndiv (Fin a) _ = Fin 0"
| "ndiv a (Fin b) = (if (0 \<le> b) = (a = PInf) then PInf else NInf)"
| "ndiv _ _ = NaN"

fun nsqrt :: "num \<Rightarrow> num" where
  "nsqrt (Fin a) = (if a < 0 then NaN else Fin (sqrt a))"
| "nsqrt PInf = PInf"
| "nsqrt NInf = NaN"
| "nsqrt NaN = NaN"

text \<open>The statistics skip the missing values (NaN) of a column.\<close>

definition present :: "num list \<Rightarrow> num list" where
  "present vs = filter (\<lambda>v. v \<noteq> NaN) vs"

definition nsum :: "num list \<Rightarrow> num" where
  "nsum vs = foldl nadd (Fin 0) vs"

definition exact_mean :: "num list \<Rightarrow> num" where
  "exact_mean vs = ndiv (nsum (present vs)) (Fin (real (length (present vs))))"

definition squares :: "num list \<Rightarrow> num list" where
  "squares vs = map (\<lambda>v. nmul (nsub v (exact_mean vs)) (nsub v (exact_mean vs))) (present vs)"

definition exact_std :: "nat \<Rightarrow> num list \<Rightarrow> num" where
  "exact_std ddof vs =
     nsqrt (ndiv (nsum (squares vs)) (Fin (real (length (present vs) - ddof))))"

fun ins :: "num \<Rightarrow> num list \<Rightarrow> num list" where
  "ins x [] = [x]"
| "ins x (y # ys) = (if nlt y x then y # ins x ys else x # y # ys)"

definition sorted_values :: "num list \<Rightarrow> num list" where
  "sorted_values vs = foldr ins (present vs) []"

text \<open>
  The percentile at \<open>k/4\<close> of \<open>n\<close> sorted values lies at position \<open>k * (n - 1) / 4\<close>,
  interpolated linearly between the two neighbouring values. NaN on an empty column.
\<close>

definition quartile :: "nat \<Rightarrow> num list \<Rightarrow> num" where
  "quartile k vs =
     (let s = sorted_values vs;
          pos = k * (length s - 1);
          lo = pos div 4;
          hi = min (lo + 1) (length s - 1)
      in if s = [] then NaN
         else nadd (s ! lo) (nmul (nsub (s ! hi) (s ! lo)) (Fin (real (pos mod 4) / 4))))"

definition exact_describe :: "num list \<Rightarrow> describe_result" where
  "exact_describe vs =
     \<lparr>d_count = Fin (real (length (present vs))),
      d_mean = exact_mean vs,
      d_std = exact_std 1 vs,
      d_min = quartile 0 vs,
      d_q25 = quartile 1 vs,
      d_q50 = quartile 2 vs,
      d_q75 = quartile 3 vs,
      d_max = quartile 4 vs\<rparr>"

text \<open>An int64 column takes a whole number and refuses any other value.\<close>

fun is_whole :: "num \<Rightarrow> bool" where
  "is_whole (Fin r) = (of_int \<lfloor>r\<rfloor> = r)"
| "is_whole _ = False"

definition int_setitem :: "bool list \<Rightarrow> num \<Rightarrow> num list \<Rightarrow> error + bool \<times> num list" where
  "int_setitem msk x vs = (if is_whole x then Inr (True, put_where msk x vs) else Inl TypeError)"

definition exact_lib :: numlib where
  "exact_lib =
     \<lparr>lib_add = nadd, lib_sub = nsub, lib_mul = nmul, lib_div = ndiv,
      lib_mean = exact_mean, lib_std = exact_std 0, lib_describe = exact_describe,
      lib_int_setitem = int_setitem\<rparr>"


section \<open>Example data\<close>

definition scenario_df :: dataframe where
  "scenario_df =
     \<lparr>df_index = [0, 1, 2, 3, 4, 5],
      df_columns = [(''a'', map Fin [1, 2, 3, 4, 5, 100]),
                    (''b'', map Fin [10, 20, 30, 40, 50, 60])],
      df_int_columns = []\<rparr>"


definition shuffled_df :: dataframe where
  "shuffled_df =
     \<lparr>df_index = [0, 1, 2, 3, 4, 5],
      df_columns = [(''a'', map Fin [3, 100, 1, 5, 2, 4])],
      df_int_columns = []\<rparr>"

definition repeated_df :: dataframe where
  "repeated_df = scenario_df\<lparr>df_index := [0, 1, 2, 3, 4, 0]\<rparr>"


definition skewed_df :: dataframe where
  "skewed_df =
     \<lparr>df_index = [0, 1, 2, 3], df_columns = [(''a'', map Fin [0, 0, 0, 100])],
      df_int_columns = []\<rparr>"

definition tail_df :: dataframe where
  "tail_df =
     \<lparr>df_index = [0, 1, 2, 3, 4, 5, 6],
      df_columns = [(''a'', map Fin [1, 2, 3, 4, 5, 9, 100])],
      df_int_columns = []\<rparr>"


section \<open>Lists and columns\<close>

lemma select_map: "select (map g xs) (map h xs) = map h (filter g xs)"
  by (induction xs) (simp_all add: select_def)

lemma select_filter: "select (map g xs) xs = filter g xs"
  using select_map [of g xs id] by simp

lemma select_zip:
  "length rs = length vs \<Longrightarrow>
   select (map (\<lambda>r. P r) rs) vs = map snd (filter (\<lambda>(r, v). P r) (zip rs vs))"
  by (induction rs vs rule: list_induct2) (simp_all add: select_def)

lemma put_where_map:
  "length rs = length vs \<Longrightarrow>
   put_where (map (\<lambda>(r, v). P v) (zip rs vs)) u vs = map (\<lambda>v. if P v then u else v) vs"
  by (induction rs vs rule: list_induct2) simp_all

lemma map_of_update_column:
  "map_of (map (\<lambda>(n, vs). if n = c then (n, f vs) else (n, vs)) cols) B =
     (if B = c then map_option f (map_of cols c) else map_of cols B)"
  by (induction cols) auto

lemma map_of_map_columns:
  "map_of (map (\<lambda>(n, vs). (n, f vs)) cols) B = map_option f (map_of cols B)"
  by (induction cols) auto


lemma seq_append:
  "seq (fs @ gs) s =
     (case seq fs s of (Some e, s') \<Rightarrow> (Some e, s') | (None, s') \<Rightarrow> seq gs s')"
  by (induction fs arbitrary: s) (simp_all split: sum.splits)

lemma getitem_Some:
  "map_of (df_columns df) c = Some vs \<Longrightarrow> getitem df c = Inr (zip (df_index df) vs)"
  by (simp add: getitem_def)

lemma getitem_None:
  "map_of (df_columns df) c = None \<Longrightarrow> getitem df c = Inl (KeyError c)"
  by (simp add: getitem_def)

lemma wf_length:
  "wf_df df \<Longrightarrow> map_of (df_columns df) c = Some vs \<Longrightarrow> length vs = length (df_index df)"
  unfolding wf_df_def list_all_iff by (auto dest: map_of_SomeD)

lemma wf_unique:
  "wf_df df \<Longrightarrow> map_of (df_columns df) c = Some vs \<Longrightarrow> (c, ws) \<in> set (df_columns df) \<Longrightarrow> ws = vs"
  unfolding wf_df_def by (metis map_of_is_SomeI option.inject)

lemma map_column_index [simp]: "df_index (map_column df c f) = df_index df"
  by (simp add: map_column_def)

lemma map_column_names [simp]:
  "map fst (df_columns (map_column df c f)) = map fst (df_columns df)"
  by (simp add: map_column_def case_prod_unfold comp_def)

lemma map_column_lookup:
  "map_of (df_columns (map_column df c f)) B =
     (if B = c then map_option f (map_of (df_columns df) c) else map_of (df_columns df) B)"
  by (simp add: map_column_def map_of_update_column)

lemma map_column_cong:
  assumes "wf_df df" and "map_of (df_columns df) c = Some vs" and "f vs = g vs"
  shows "map_column df c f = map_column df c g"
proof -
  have "map (\<lambda>(n, ws). if n = c then (n, f ws) else (n, ws)) (df_columns df)
      = map (\<lambda>(n, ws). if n = c then (n, g ws) else (n, ws)) (df_columns df)"
  proof (rule map_cong [OF refl])
    fix x assume x: "x \<in> set (df_columns df)"
    obtain n ws where nw: "x = (n, ws)" by (cases x)
    show "(case x of (n, ws) \<Rightarrow> if n = c then (n, f ws) else (n, ws))
        = (case x of (n, ws) \<Rightarrow> if n = c then (n, g ws) else (n, ws))"
      using wf_unique [OF assms(1,2)] x assms(3) unfolding nw by auto
  qed
  then show ?thesis by (simp add: map_column_def)
qed

lemma map_column_same: "map_column df c (\<lambda>ws. ws) = df"
proof -
  have "map (\<lambda>(n, ws). if n = c then (n, ws) else (n, ws)) (df_columns df) = df_columns df"
    by (induction "df_columns df") (auto simp: map_idI)
  then show ?thesis by (simp add: map_column_def)
qed

lemma map_column_id:
  assumes "wf_df df" and "map_of (df_columns df) c = Some vs" and "f vs = vs"
  shows "map_column df c f = df"
  using map_column_cong [OF assms(1,2), of f "\<lambda>ws. ws"] assms(3)
  by (simp add: map_column_same)

lemma map_column_twice:
  "map_column (map_column df c f) c g = map_column df c (\<lambda>ws. g (f ws))"
  by (simp add: map_column_def case_prod_unfold comp_def)

lemma wf_map_column:
  assumes "wf_df df" and "\<And>ws. length (f ws) = length ws"
  shows "wf_df (map_column df c f)"
proof -
  have "list_all (\<lambda>(n, vs). length vs = length (df_index df))
      (map (\<lambda>(n, vs). if n = c then (n, f vs) else (n, vs)) (df_columns df))"
    using assms unfolding wf_df_def list_all_iff by (auto split: if_splits)
  then have "list_all (\<lambda>(n, vs). length vs = length (df_index (map_column df c f)))
      (df_columns (map_column df c f))"
    by (simp add: map_column_def)
  moreover have "distinct (map fst (df_columns (map_column df c f)))"
    using assms(1) unfolding map_column_names wf_df_def by simp
  ultimately show ?thesis unfolding wf_df_def by simp
qed

lemma zip_filter_label:
  "length rs = length vs \<Longrightarrow>
   zip (filter P rs) (map snd (filter (\<lambda>(r, v). P r) (zip rs vs)))
     = filter (\<lambda>(r, v). P r) (zip rs vs)"
  by (induction rs vs rule: list_induct2) simp_all

lemma map_of_filter_key:
  "map_of (filter (\<lambda>(k, v). P k) xs) r = (if P r then map_of xs r else None)"
  by (induction xs) auto

lemma drop_rows_index:
  "df_index (drop_rows df labels) = filter (\<lambda>r. r \<notin> set labels) (df_index df)"
  by (simp add: drop_rows_def Let_def select_filter)

lemma drop_rows_names:
  "map fst (df_columns (drop_rows df labels)) = map fst (df_columns df)"
  by (simp add: drop_rows_def Let_def case_prod_unfold comp_def)

lemma drop_rows_column:
  assumes "wf_df df"
  shows "map_of (df_columns (drop_rows df labels)) B =
     map_option (\<lambda>vs. map snd (filter (\<lambda>(r, v). r \<notin> set labels) (zip (df_index df) vs)))
       (map_of (df_columns df) B)"
proof (cases "map_of (df_columns df) B")
  case None
  then show ?thesis by (simp add: drop_rows_def Let_def map_of_map_columns)
next
  case (Some vs)
  have "length (df_index df) = length vs" using wf_length [OF assms Some] by simp
  from select_zip [OF this, of "\<lambda>r. r \<notin> set labels"] Some show ?thesis
    by (simp add: drop_rows_def Let_def map_of_map_columns)
qed

lemma cell_drop_rows:
  assumes "wf_df df"
  shows "cell (drop_rows df labels) B r = (if r \<in> set labels then None else cell df B r)"
proof (cases "map_of (df_columns df) B")
  case None
  then show ?thesis by (simp add: cell_def drop_rows_column [OF assms])
next
  case (Some vs)
  have len: "length (df_index df) = length vs" using wf_length [OF assms Some] by simp
  show ?thesis
    using Some
    by (simp add: cell_def drop_rows_column [OF assms] drop_rows_index
        zip_filter_label [OF len] map_of_filter_key)
qed

lemma length_filter_zip:
  "length rs = length vs \<Longrightarrow>
   length (filter (\<lambda>(r, v). P r) (zip rs vs)) = length (filter P rs)"
  by (induction rs vs rule: list_induct2) simp_all

lemma wf_drop_rows:
  assumes "wf_df df"
  shows "wf_df (drop_rows df labels)"
proof -
  have len: "length (select (map (\<lambda>r. r \<notin> set labels) (df_index df)) vs)
      = length (filter (\<lambda>r. r \<notin> set labels) (df_index df))"
    if "length vs = length (df_index df)" for vs :: "num list"
  proof -
    have "length (df_index df) = length vs" using that by simp
    then show ?thesis
      by (simp add: select_zip length_filter_zip)
  qed
  have "list_all (\<lambda>(n, vs). length vs = length (filter (\<lambda>r. r \<notin> set labels) (df_index df)))
      (map (\<lambda>(n, vs). (n, select (map (\<lambda>r. r \<notin> set labels) (df_index df)) vs))
         (df_columns df))"
    using assms len unfolding wf_df_def list_all_iff by auto
  then have "list_all (\<lambda>(n, vs). length vs = length (df_index (drop_rows df labels)))
      (df_columns (drop_rows df labels))"
    unfolding drop_rows_index by (simp add: drop_rows_def Let_def)
  moreover have "distinct (map fst (df_columns (drop_rows df labels)))"
    using assms unfolding drop_rows_names wf_df_def by simp
  ultimately show ?thesis unfolding wf_df_def by simp
qed

lemma drop_rows_none:
  assumes "wf_df df" and "set labels \<inter> set (df_index df) = {}"
  shows "drop_rows df labels = df"
proof -
  have keep: "map (\<lambda>r. r \<notin> set labels) (df_index df) = map (\<lambda>r. True) (df_index df)"
    using assms(2) by (intro map_cong) auto
  have sel: "select (map (\<lambda>r. True) (df_index df)) vs = vs"
    if "length vs = length (df_index df)" for vs :: "num list"
  proof -
    have "length (df_index df) = length vs" using that by simp
    from select_zip [OF this, of "\<lambda>r. True"] that show ?thesis by simp
  qed
  have "map (\<lambda>(n, vs). (n, select (map (\<lambda>r. True) (df_index df)) vs)) (df_columns df)
      = map (\<lambda>x. x) (df_columns df)"
    using assms(1) unfolding wf_df_def list_all_iff
    by (intro map_cong) (auto simp: sel)
  then show ?thesis
    by (simp add: drop_rows_def Let_def keep select_filter)
qed

lemma set_zip_values:
  "length rs = length vs \<Longrightarrow> snd ` set (zip rs vs) = set vs"
  by (induction rs vs rule: list_induct2) auto

lemma map_column_fixed_iff:
  assumes "wf_df df" and "map_of (df_columns df) c = Some vs"
  shows "map_column df c f = df \<longleftrightarrow> f vs = vs"
proof
  assume "map_column df c f = df"
  then have "map_of (df_columns (map_column df c f)) c = map_of (df_columns df) c" by simp
  then show "f vs = vs" by (simp add: map_column_lookup assms(2))
next
  assume "f vs = vs"
  then show "map_column df c f = df" by (rule map_column_id [OF assms])
qed

lemma map_column_int [simp]: "df_int_columns (map_column df c f) = df_int_columns df"
  by (simp add: map_column_def)

lemma drop_rows_int: "df_int_columns (drop_rows df labels) = df_int_columns df"
  by (simp add: drop_rows_def Let_def)

lemma nlt_irrefl [simp]: "\<not> nlt a a"
  by (cases a) simp_all

lemma length_clip_above [simp]: "length (clip_above U ws) = length ws"
  by (simp add: clip_above_def)

lemma length_clip_below [simp]: "length (clip_below L ws) = length ws"
  by (simp add: clip_below_def)

lemma clip_both:
  assumes "\<not> nlt U L"
  shows "clip_below L (clip_above U vs)
     = map (\<lambda>v. if ngt v U then U else if nlt v L then L else v) vs"
  using assms by (auto simp: clip_below_def clip_above_def)

lemma clip_within:
  assumes "\<not> nlt U L"
  shows "\<forall>v\<in>set (clip_below L (clip_above U vs)). \<not> ngt v U \<and> \<not> nlt v L"
  using assms unfolding clip_both [OF assms] by (auto simp: ngt_def)

lemma clip_fixed:
  assumes "\<forall>v\<in>set vs. \<not> ngt v U \<and> \<not> nlt v L"
  shows "clip_below L (clip_above U vs) = vs"
proof -
  have "clip_above U vs = vs"
    unfolding clip_above_def using assms by (intro map_idI) auto
  moreover have "clip_below L vs = vs"
    unfolding clip_below_def using assms by (intro map_idI) auto
  ultimately show ?thesis by simp
qed

lemma clip_fixed_iff:
  assumes "\<not> nlt U L"
  shows "clip_below L (clip_above U vs) = vs \<longleftrightarrow> (\<forall>v\<in>set vs. \<not> ngt v U \<and> \<not> nlt v L)"
proof -
  have ne: "a \<noteq> b" if "nlt a b" for a b
    using that by auto
  have "map (\<lambda>v. if ngt v U then U else if nlt v L then L else v) vs = map (\<lambda>v. v) vs
      \<longleftrightarrow> (\<forall>v\<in>set vs. (if ngt v U then U else if nlt v L then L else v) = v)"
    by (rule map_eq_conv)
  also have "\<dots> \<longleftrightarrow> (\<forall>v\<in>set vs. \<not> ngt v U \<and> \<not> nlt v L)"
    using ne by (intro ball_cong refl) (auto simp: ngt_def)
  finally show ?thesis unfolding clip_both [OF assms] by simp
qed


section \<open>Detection and the two actions\<close>


lemma describe_quartiles:
  "describe_entries d ! 4 = d_q25 d" "describe_entries d ! 6 = d_q75 d"
  by (simp_all add: describe_entries_def)

lemma iqr_calc_rows:
  "iqr_calc L feature =
     (lib_add L (d_q75 (lib_describe L (map snd feature)))
        (lib_mul L (Fin (3 / 2))
          (lib_sub L (d_q75 (lib_describe L (map snd feature)))
            (d_q25 (lib_describe L (map snd feature))))),
      lib_sub L (d_q25 (lib_describe L (map snd feature)))
        (lib_mul L (Fin (3 / 2))
          (lib_sub L (d_q75 (lib_describe L (map snd feature)))
            (d_q25 (lib_describe L (map snd feature))))),
      filter (\<lambda>(r, v).
          nlt v (lib_sub L (d_q25 (lib_describe L (map snd feature)))
            (lib_mul L (Fin (3 / 2))
              (lib_sub L (d_q75 (lib_describe L (map snd feature)))
                (d_q25 (lib_describe L (map snd feature)))))) \<or>
          ngt v (lib_add L (d_q75 (lib_describe L (map snd feature)))
            (lib_mul L (Fin (3 / 2))
              (lib_sub L (d_q75 (lib_describe L (map snd feature)))
                (d_q25 (lib_describe L (map snd feature))))))) feature)"
proof -
  have m: "map (\<lambda>v. P v) (map snd feature) = map (\<lambda>(r, v). P v) feature" for P :: "num \<Rightarrow> bool"
    by (simp add: case_prod_unfold)
  show ?thesis
    unfolding iqr_calc_def Let_def describe_quartiles m select_filter ..
qed

lemma iqr_calc_flagged:
  assumes "iqr_calc L f = (U, Lo, os)"
  shows "os = filter (\<lambda>(r, v). nlt v Lo \<or> ngt v U) f"
  using assms unfolding iqr_calc_rows by auto

lemma z_loop_return:
  "z_loop L df ''return'' cs out =
     (case cs of [] \<Rightarrow> (Inr None, out)
      | c # rest \<Rightarrow> (case getitem df c of Inl e \<Rightarrow> (Inl e, out)
                    | Inr f \<Rightarrow> (Inr (Some (z_calc L f)), out)))"
  by (cases cs) (simp_all split: sum.splits prod.splits)

lemma iqr_loop_return:
  "iqr_loop L df ''return'' cs out =
     (case cs of [] \<Rightarrow> (Inr None, out)
      | c # rest \<Rightarrow> (case getitem df c of Inl e \<Rightarrow> (Inl e, out)
                    | Inr f \<Rightarrow> (Inr (Some (iqr_calc L f)), out)))"
  by (cases cs) (simp_all split: sum.splits prod.splits)

lemma detect_SomeD:
  assumes "detect L using df c = Some (u, l, outs)"
  shows "\<exists>c' rest f. normalize_columns df (Str c) = c' # rest \<and> getitem df c' = Inr f \<and>
      ((str_upper (str_strip using) = ''IQR'' \<and> (\<exists>os. iqr_calc L f = (u, l, os) \<and> outs = IQROut os)) \<or>
       (str_upper (str_strip using) = ''Z'' \<and> (\<exists>os. z_calc L f = (u, l, os) \<and> outs = ZOut os)))"
  using assms
  unfolding detect_def if_IQR_def if_Z_def outliers_IQR_def outliers_z_score_def
    z_loop_return iqr_loop_return
  by (auto split: if_splits list.splits sum.splits prod.splits option.splits)

lemma seq_detect:
  assumes "detect L using df c = Some t"
  shows "seq [if_IQR L using c, if_Z L using c] \<lparr>st_df = df, st_locals = None, st_out = []\<rparr>
     = (None, \<lparr>st_df = df, st_locals = Some t, st_out = []\<rparr>)"
  using assms
  unfolding detect_def if_IQR_def if_Z_def outliers_IQR_def outliers_z_score_def
    z_loop_return iqr_loop_return
  by (auto split: if_splits list.splits sum.splits prod.splits option.splits)

lemma outliers_IQR_return:
  "normalize_columns df sel = c' # rest \<Longrightarrow> getitem df c' = Inr f \<Longrightarrow>
   outliers_IQR L df sel ''return'' = (Inr (Some (iqr_calc L f)), [])"
  by (simp add: outliers_IQR_def iqr_loop_return)

lemma outliers_z_score_return:
  "normalize_columns df sel = c' # rest \<Longrightarrow> getitem df c' = Inr f \<Longrightarrow>
   outliers_z_score L df sel ''return'' = (Inr (Some (z_calc L f)), [])"
  by (simp add: outliers_z_score_def z_loop_return)

lemma detect_IQR:
  assumes "str_upper (str_strip using) = ''IQR''"
    and "normalize_columns df (Str c) = c' # rest" and "getitem df c' = Inr f"
  shows "detect L using df c = Some (case iqr_calc L f of (u, l, os) \<Rightarrow> (u, l, IQROut os))"
  unfolding detect_def if_IQR_def if_Z_def
  using assms(1) outliers_IQR_return [OF assms(2,3)]
  by (simp split: prod.splits)

lemma detect_Z:
  assumes "str_upper (str_strip using) = ''Z''"
    and "normalize_columns df (Str c) = c' # rest" and "getitem df c' = Inr f"
  shows "detect L using df c = Some (case z_calc L f of (u, l, os) \<Rightarrow> (u, l, ZOut os))"
  unfolding detect_def if_IQR_def if_Z_def
  using assms(1) outliers_z_score_return [OF assms(2,3)]
  by (simp split: prod.splits)

lemma handle_remove:
  assumes "detect L using df c = Some (u, l, outs)"
  shows "handle_outliers L df (Str c) using ''remove''
     = (None, drop_rows df (out_index outs), [Removed outs, Separator])"
proof -
  have "seq ([if_IQR L using c, if_Z L using c] @ [if_remove ''remove''])
          \<lparr>st_df = df, st_locals = None, st_out = []\<rparr>
      = (None, \<lparr>st_df = drop_rows df (out_index outs), st_locals = Some (u, l, outs),
                st_out = [Removed outs]\<rparr>)"
    unfolding seq_append seq_detect [OF assms] by (simp add: if_remove_def)
  then show ?thesis
    by (simp add: handle_outliers_def handle_column_def if_compress_def print_separator_def)
qed

lemma loc_assign_above:
  assumes "wf_df df" and "map_of (df_columns df) c = Some vs"
    and "c \<notin> set (df_int_columns df)"
  shows "loc_assign L df (map (\<lambda>(r, v). ngt v U) (zip (df_index df) vs)) c U
     = Inr (map_column df c (clip_above U))"
proof -
  have len: "length (df_index df) = length vs"
    using wf_length [OF assms(1,2)] by simp
  have pw: "put_where (map (\<lambda>(r, v). ngt v U) (zip (df_index df) vs)) U vs = clip_above U vs"
    unfolding clip_above_def by (rule put_where_map [OF len])
  have "map_column df c (\<lambda>ws. clip_above U vs) = map_column df c (clip_above U)"
    by (rule map_column_cong [OF assms(1,2)]) simp
  with assms(2,3) show ?thesis
    by (simp add: loc_assign_def pw set_column_def map_column_def)
qed

lemma loc_assign_below:
  assumes "wf_df df" and "map_of (df_columns df) c = Some vs"
    and "c \<notin> set (df_int_columns df)"
  shows "loc_assign L df (map (\<lambda>(r, v). nlt v Lo) (zip (df_index df) vs)) c Lo
     = Inr (map_column df c (clip_below Lo))"
proof -
  have len: "length (df_index df) = length vs"
    using wf_length [OF assms(1,2)] by simp
  have pw: "put_where (map (\<lambda>(r, v). nlt v Lo) (zip (df_index df) vs)) Lo vs = clip_below Lo vs"
    unfolding clip_below_def by (rule put_where_map [OF len])
  have "map_column df c (\<lambda>ws. clip_below Lo vs) = map_column df c (clip_below Lo)"
    by (rule map_column_cong [OF assms(1,2)]) simp
  with assms(2,3) show ?thesis
    by (simp add: loc_assign_def pw set_column_def map_column_def)
qed

lemma handle_compress:
  assumes "detect L using df c = Some (U, Lo, outs)" and "wf_df df"
    and "map_of (df_columns df) c = Some vs" and "c \<notin> set (df_int_columns df)"
  shows "handle_outliers L df (Str c) using ''compress''
     = (None, map_column df c (\<lambda>ws. clip_below Lo (clip_above U ws)),
        [Compressed c outs, Separator])"
proof -
  define df1 where "df1 = map_column df c (clip_above U)"
  have wf1: "wf_df df1" unfolding df1_def by (rule wf_map_column [OF assms(2)]) simp
  have c1: "map_of (df_columns df1) c = Some (clip_above U vs)"
    by (simp add: df1_def map_column_lookup assms(3))
  have i1: "df_index df1 = df_index df" by (simp add: df1_def)
  have n1: "c \<notin> set (df_int_columns df1)" using assms(4) by (simp add: df1_def)
  have first: "seq ([if_IQR L using c, if_Z L using c] @ [if_remove ''compress''])
          \<lparr>st_df = df, st_locals = None, st_out = []\<rparr>
      = (None, \<lparr>st_df = df, st_locals = Some (U, Lo, outs), st_out = []\<rparr>)"
    unfolding seq_append seq_detect [OF assms(1)] by (simp add: if_remove_def)
  have up: "clamp_upper L c \<lparr>st_df = df, st_locals = Some (U, Lo, outs), st_out = []\<rparr>
      = Inr \<lparr>st_df = df1, st_locals = Some (U, Lo, outs), st_out = []\<rparr>"
    by (simp add: clamp_upper_def getitem_Some [OF assms(3)]
        loc_assign_above [OF assms(2,3,4)] df1_def)
  have lo: "clamp_lower L c \<lparr>st_df = df1, st_locals = Some (U, Lo, outs), st_out = []\<rparr>
      = Inr \<lparr>st_df = map_column df1 c (clip_below Lo), st_locals = Some (U, Lo, outs),
             st_out = []\<rparr>"
    by (simp add: clamp_lower_def getitem_Some [OF c1] i1 [symmetric]
        loc_assign_below [OF wf1 c1 n1])
  have "if_compress L ''compress'' c \<lparr>st_df = df, st_locals = Some (U, Lo, outs), st_out = []\<rparr>
      = (None, \<lparr>st_df = map_column df1 c (clip_below Lo), st_locals = Some (U, Lo, outs),
                st_out = [Compressed c outs]\<rparr>)"
    by (simp add: if_compress_def up lo print_compressed_def)
  with first show ?thesis
    by (simp add: handle_outliers_def handle_column_def print_separator_def df1_def
        map_column_twice)
qed

lemma detect_IQR_rows:
  assumes "detect L using df c = Some (U, Lo, outs)"
    and "str_upper (str_strip using) = ''IQR''"
    and "c \<noteq> ''all_the_columns''" and "map_of (df_columns df) c = Some vs"
  shows "outs = IQROut (filter (\<lambda>(r, v). nlt v Lo \<or> ngt v U) (zip (df_index df) vs))"
proof -
  from detect_SomeD [OF assms(1)] assms(2,3) getitem_Some [OF assms(4)]
  have "\<exists>os. iqr_calc L (zip (df_index df) vs) = (U, Lo, os) \<and> outs = IQROut os"
    by auto
  then show ?thesis using iqr_calc_flagged by blast
qed

lemma detect_column:
  assumes "detect L using df c = Some (U, Lo, outs)"
    and "c \<noteq> ''all_the_columns''" and "map_of (df_columns df) c = Some vs"
  shows "(str_upper (str_strip using) = ''IQR'' \<and>
       (U, Lo, outs) = (case iqr_calc L (zip (df_index df) vs) of (u, l, os) \<Rightarrow> (u, l, IQROut os))) \<or>
     (str_upper (str_strip using) = ''Z'' \<and>
       (U, Lo, outs) = (case z_calc L (zip (df_index df) vs) of (u, l, os) \<Rightarrow> (u, l, ZOut os)))"
  using detect_SomeD [OF assms(1)] assms(2) getitem_Some [OF assms(3)] by auto


section \<open>Unrecognised methods, actions and column names: the loop\<close>

lemma handle_column_noop:
  assumes "str_upper (str_strip using) \<noteq> ''IQR''" and "str_upper (str_strip using) \<noteq> ''Z''"
    and "action \<noteq> ''remove''" and "action \<noteq> ''compress''"
  shows "handle_column L using action c s = (None, s\<lparr>st_out := st_out s @ [Separator]\<rparr>)"
  using assms
  by (simp add: handle_column_def if_IQR_def if_Z_def if_remove_def if_compress_def
      print_separator_def)

lemma handle_loop_noop:
  assumes "str_upper (str_strip using) \<noteq> ''IQR''" and "str_upper (str_strip using) \<noteq> ''Z''"
    and "action \<noteq> ''remove''" and "action \<noteq> ''compress''"
  shows "handle_loop L using action cs s
     = (None, s\<lparr>st_out := st_out s @ replicate (length cs) Separator\<rparr>)"
proof (induction cs arbitrary: s)
  case Nil
  show ?case by simp
next
  case (Cons c cs)
  show ?case
    by (simp add: handle_column_noop [OF assms] Cons.IH replicate_append_same)
qed

lemma outliers_IQR_return_silent: "snd (outliers_IQR L df sel ''return'') = []"
  by (simp add: outliers_IQR_def iqr_loop_return split: list.splits sum.splits)

lemma outliers_z_score_return_silent: "snd (outliers_z_score L df sel ''return'') = []"
  by (simp add: outliers_z_score_def z_loop_return split: list.splits sum.splits)

lemma if_IQR_frame:
  assumes "if_IQR L using c s = Inr s'"
  shows "st_df s' = st_df s \<and> st_out s' = st_out s"
  using assms outliers_IQR_return_silent [of L "st_df s" "Str c"]
  by (auto simp: if_IQR_def split: if_splits prod.splits sum.splits option.splits)

lemma if_Z_frame:
  assumes "if_Z L using c s = Inr s'"
  shows "st_df s' = st_df s \<and> st_out s' = st_out s"
  using assms outliers_z_score_return_silent [of L "st_df s" "Str c"]
  by (auto simp: if_Z_def split: if_splits prod.splits sum.splits option.splits)

lemma handle_column_frame:
  assumes "action \<noteq> ''remove''" and "action \<noteq> ''compress''"
    and "handle_column L using action c s = (e, s')"
  shows "st_df s' = st_df s \<and>
    (st_out s' = st_out s \<or> st_out s' = st_out s @ [Separator])"
proof (cases "if_IQR L using c s")
  case (Inl x)
  with assms show ?thesis by (auto simp: handle_column_def)
next
  case iqr: (Inr s1)
  show ?thesis
  proof (cases "if_Z L using c s1")
    case (Inl x)
    with assms iqr if_IQR_frame [OF iqr] show ?thesis by (auto simp: handle_column_def)
  next
    case z: (Inr s2)
    with assms iqr if_IQR_frame [OF iqr] if_Z_frame [OF z] show ?thesis
      by (auto simp: handle_column_def if_remove_def if_compress_def print_separator_def)
  qed
qed

lemma handle_loop_frame:
  assumes "action \<noteq> ''remove''" and "action \<noteq> ''compress''"
    and "handle_loop L using action cs s = (e, s')"
  shows "st_df s' = st_df s \<and> set (st_out s') \<subseteq> set (st_out s) \<union> {Separator}"
  using assms(3)
proof (induction cs arbitrary: s)
  case Nil
  then show ?case by auto
next
  case (Cons c cs)
  obtain e1 s1 where h: "handle_column L using action c s = (e1, s1)"
    by (cases "handle_column L using action c s")
  note f = handle_column_frame [OF assms(1,2) h]
  show ?case
  proof (cases e1)
    case None
    with Cons.prems h have "handle_loop L using action cs s1 = (e, s')" by simp
    from Cons.IH [OF this] f show ?thesis by auto
  next
    case (Some x)
    with Cons.prems h have "s' = s1" by simp
    with f show ?thesis by auto
  qed
qed

lemma detect_first_column:
  assumes "str_upper (str_strip using) = ''IQR'' \<or> str_upper (str_strip using) = ''Z''"
    and "df_columns df = (c0, vs0) # rest"
  shows "\<exists>t. detect L using df ''all_the_columns'' = Some t"
proof -
  have n: "normalize_columns df (Str ''all_the_columns'') = c0 # map fst rest"
    by (simp add: assms(2))
  have g: "getitem df c0 = Inr (zip (df_index df) vs0)"
    by (simp add: getitem_def assms(2))
  from assms(1) show ?thesis
  proof
    assume "str_upper (str_strip using) = ''IQR''"
    from detect_IQR [OF this n g] show ?thesis by blast
  next
    assume "str_upper (str_strip using) = ''Z''"
    from detect_Z [OF this n g] show ?thesis by blast
  qed
qed

lemma handle_missing_column:
  assumes "str_upper (str_strip using) = ''IQR'' \<or> str_upper (str_strip using) = ''Z''"
    and "map_of (df_columns df) s = None" and "s \<noteq> ''all_the_columns''"
  shows "handle_outliers L df (Str s) using action = (Some (KeyError s), df, [])"
  using assms
  by (auto simp: handle_outliers_def handle_column_def if_IQR_def if_Z_def
      outliers_IQR_def outliers_z_score_def iqr_loop_return z_loop_return getitem_None)

lemma handle_sentinel_compress:
  assumes "str_upper (str_strip using) = ''IQR'' \<or> str_upper (str_strip using) = ''Z''"
    and "map_of (df_columns df) ''all_the_columns'' = None"
    and "df_columns df = (c0, vs0) # rest"
  shows "handle_outliers L df (Str ''all_the_columns'') using ''compress''
     = (Some (KeyError ''all_the_columns''), df, [])"
proof -
  from detect_first_column [OF assms(1,3)] obtain U Lo outs where
    d: "detect L using df ''all_the_columns'' = Some (U, Lo, outs)"
    by (metis prod_cases3)
  have first: "seq ([if_IQR L using ''all_the_columns'', if_Z L using ''all_the_columns'']
          @ [if_remove ''compress''])
          \<lparr>st_df = df, st_locals = None, st_out = []\<rparr>
      = (None, \<lparr>st_df = df, st_locals = Some (U, Lo, outs), st_out = []\<rparr>)"
    unfolding seq_append seq_detect [OF d] by (simp add: if_remove_def)
  have "if_compress L ''compress'' ''all_the_columns''
          \<lparr>st_df = df, st_locals = Some (U, Lo, outs), st_out = []\<rparr>
      = (Some (KeyError ''all_the_columns''),
         \<lparr>st_df = df, st_locals = Some (U, Lo, outs), st_out = []\<rparr>)"
    by (simp add: if_compress_def clamp_upper_def getitem_None [OF assms(2)])
  with first show ?thesis
    by (simp add: handle_outliers_def handle_column_def)
qed


section \<open>The examples, evaluated\<close>

lemmas lib_eval =
  exact_lib_def int_setitem_def exact_describe_def exact_mean_def exact_std_def squares_def nsum_def
  present_def sorted_values_def quartile_def describe_entries_def nsub_def ngt_def

lemmas iqr_eval =
  outliers_IQR_def getitem_def iqr_calc_def select_def lib_eval

lemmas handle_eval =
  handle_outliers_def handle_column_def if_IQR_def if_Z_def if_remove_def if_compress_def
  clamp_upper_def clamp_lower_def print_compressed_def print_separator_def loc_assign_def
  set_column_def drop_rows_def str_upper_def str_strip_def upper_char_def is_space_def

lemma method_IQR: "str_upper (str_strip ''IQR'') = ''IQR''"
  by (simp add: str_upper_def str_strip_def upper_char_def is_space_def)

lemma method_Z: "str_upper (str_strip ''Z'') = ''Z''"
  by (simp add: str_upper_def str_strip_def upper_char_def is_space_def)

lemma method_spaced: "str_upper (str_strip '' iqr '') = ''IQR''"
  by (simp add: str_upper_def str_strip_def upper_char_def is_space_def)

lemma method_range:
  "str_upper (str_strip ''range'') \<noteq> ''IQR'' \<and> str_upper (str_strip ''range'') \<noteq> ''Z''"
  by (simp add: str_upper_def str_strip_def upper_char_def is_space_def)


lemma wf_scenario: "wf_df scenario_df"
  by (simp add: wf_df_def scenario_df_def)

lemma scenario_column_a:
  "map_of (df_columns scenario_df) ''a'' = Some (map Fin [1, 2, 3, 4, 5, 100])"
  by (simp add: scenario_df_def)

lemma scenario_float: "''a'' \<notin> set (df_int_columns scenario_df)"
  by (simp add: scenario_df_def)

lemma scenario_detect:
  "detect exact_lib ''IQR'' scenario_df ''a''
     = Some (Fin (17 / 2), Fin (- (3 / 2)), IQROut [(5, Fin 100)])"
  by (simp add: detect_def scenario_df_def handle_eval iqr_eval)

lemma scenario_compressed_detect:
  "detect exact_lib ''IQR''
     \<lparr>df_index = [0, 1, 2, 3, 4, 5],
      df_columns = [(''a'', map Fin [1, 2, 3, 4, 5, 17 / 2]),
                    (''b'', map Fin [10, 20, 30, 40, 50, 60])],
      df_int_columns = []\<rparr> ''a''
   = Some (Fin (17 / 2), Fin (- (3 / 2)), IQROut [])"
  by (simp add: detect_def handle_eval iqr_eval)

lemma scenario_removed_detect:
  "detect exact_lib ''IQR''
     \<lparr>df_index = [0, 1, 2, 3, 4],
      df_columns = [(''a'', map Fin [1, 2, 3, 4, 5]), (''b'', map Fin [10, 20, 30, 40, 50])],
      df_int_columns = []\<rparr> ''a''
   = Some (Fin 7, Fin (- 1), IQROut [])"
  by (simp add: detect_def handle_eval iqr_eval)


section \<open>The two detection methods\<close>



text \<open>
  C2: for every column, with \<open>q1\<close> and \<open>q3\<close> the 25th and the 75th percentile that
  \<open>describe()\<close> returns for it, \<open>outliers_IQR\<close> returns the bounds
  \<open>lower = q1 - 1.5 (q3 - q1)\<close> and \<open>upper = q3 + 1.5 (q3 - q1)\<close> and, in row order, the
  rows whose value is below \<open>lower\<close> or above \<open>upper\<close>, each with its label and its raw
  value. Differences, products and sums are those of the library.
\<close>

theorem iqr_bounds_and_outliers:
  assumes "normalize_columns df sel = c # rest" and "getitem df c = Inr feature"
    and "q1 = d_q25 (lib_describe L (map snd feature))"
    and "q3 = d_q75 (lib_describe L (map snd feature))"
    and "iqr = lib_sub L q3 q1"
    and "lower = lib_sub L q1 (lib_mul L (Fin (3 / 2)) iqr)"
    and "upper = lib_add L q3 (lib_mul L (Fin (3 / 2)) iqr)"
  shows "outliers_IQR L df sel ''return'' =
     (Inr (Some (upper, lower, filter (\<lambda>(r, v). nlt v lower \<or> ngt v upper) feature)), [])"
  unfolding outliers_IQR_return [OF assms(1,2)] iqr_calc_rows assms(3-7) ..

theorem iqr_bounds_and_outliers_witness:
  "outliers_IQR exact_lib shuffled_df (Str ''a'') ''return'' =
     (Inr (Some (Fin (17 / 2), Fin (- (3 / 2)), [(1, Fin 100)])), [])"
proof -
  define feature where "feature = zip (df_index shuffled_df) (map Fin [3, 100, 1, 5, 2, 4])"
  have n: "normalize_columns shuffled_df (Str ''a'') = ''a'' # []" by simp
  have g: "getitem shuffled_df ''a'' = Inr feature"
    by (simp add: shuffled_df_def getitem_def feature_def)
  have q1: "Fin (9 / 4) = d_q25 (lib_describe exact_lib (map snd feature))"
    by (simp add: feature_def shuffled_df_def lib_eval)
  have q3: "Fin (19 / 4) = d_q75 (lib_describe exact_lib (map snd feature))"
    by (simp add: feature_def shuffled_df_def lib_eval)
  have i: "Fin (5 / 2) = lib_sub exact_lib (Fin (19 / 4)) (Fin (9 / 4))"
    by (simp add: lib_eval)
  have l: "Fin (- (3 / 2)) = lib_sub exact_lib (Fin (9 / 4)) (lib_mul exact_lib (Fin (3 / 2)) (Fin (5 / 2)))"
    by (simp add: lib_eval)
  have u: "Fin (17 / 2) = lib_add exact_lib (Fin (19 / 4)) (lib_mul exact_lib (Fin (3 / 2)) (Fin (5 / 2)))"
    by (simp add: lib_eval)
  show ?thesis
    unfolding iqr_bounds_and_outliers [OF n g q1 q3 i l u]
    by (simp add: feature_def shuffled_df_def ngt_def)
qed


section \<open>Return mode with several columns\<close>

text \<open>
  C9, as stated, fails: in return mode the functions return from inside the loop, so a
  selector naming the columns \<open>b\<close> and \<open>a\<close> yields the one triple of \<open>b\<close>; the
  triple of \<open>a\<close>, with its outlier 100, is not part of the result.
\<close>

theorem return_mode_each_column_counterexample:
  "outliers_IQR exact_lib scenario_df (Lst [''b'', ''a'']) ''return''
     = (Inr (Some (Fin 85, Fin (- 15), [])), []) \<and>
   outliers_IQR exact_lib scenario_df (Lst [''a'']) ''return''
     = (Inr (Some (Fin (17 / 2), Fin (- (3 / 2)), [(5, Fin 100)])), [])"
  by (simp add: scenario_df_def iqr_eval)

text \<open>
  C9, amended: in return mode \<open>outliers_z_score\<close> and \<open>outliers_IQR\<close> yield one
  triple (upper bound, lower bound, outlier records), that of the first selected column,
  or the lookup error of that column; the columns after the first are not processed.
\<close>

theorem return_mode_first_column_only:
  assumes "normalize_columns df sel = c # rest"
  shows "outliers_z_score L df sel ''return'' = outliers_z_score L df (Lst [c]) ''return'' \<and>
    outliers_IQR L df sel ''return'' = outliers_IQR L df (Lst [c]) ''return'' \<and>
    (case getitem df c of
       Inl e \<Rightarrow> outliers_z_score L df sel ''return'' = (Inl e, []) \<and>
                outliers_IQR L df sel ''return'' = (Inl e, [])
     | Inr f \<Rightarrow> outliers_z_score L df sel ''return'' = (Inr (Some (z_calc L f)), []) \<and>
                outliers_IQR L df sel ''return'' = (Inr (Some (iqr_calc L f)), []))"
  using assms
  by (simp add: outliers_z_score_def outliers_IQR_def z_loop_return iqr_loop_return
      split: sum.splits)

theorem return_mode_first_column_only_witness:
  "outliers_z_score exact_lib scenario_df (Lst [''b'', ''a'']) ''return''
     = outliers_z_score exact_lib scenario_df (Lst [''b'']) ''return'' \<and>
   outliers_IQR exact_lib scenario_df (Lst [''b'', ''a'']) ''return''
     = outliers_IQR exact_lib scenario_df (Lst [''b'']) ''return'' \<and>
   outliers_IQR exact_lib scenario_df (Lst [''b'', ''a'']) ''return''
     = (Inr (Some (iqr_calc exact_lib (zip [0, 1, 2, 3, 4, 5] (map Fin [10, 20, 30, 40, 50, 60])))), [])"
proof -
  have h: "normalize_columns scenario_df (Lst [''b'', ''a'']) = ''b'' # [''a'']"
    by simp
  have g: "getitem scenario_df ''b'' = Inr (zip [0, 1, 2, 3, 4, 5] (map Fin [10, 20, 30, 40, 50, 60]))"
    by (simp add: scenario_df_def getitem_def)
  from return_mode_first_column_only [OF h, unfolded g sum.case]
  show ?thesis by blast
qed


section \<open>Removing and compressing\<close>

text \<open>
  C3, as stated, fails: \<open>df.drop\<close> removes rows by label. In a data frame with the
  row labels 0, 1, 2, 3, 4, 0 the row of 100 is flagged; the first row, with the value 1,
  is not flagged, has the same label 0, and is removed with it.
\<close>

theorem repeated_label_remove_counterexample:
  "handle_outliers exact_lib repeated_df (Str ''a'') ''IQR'' ''remove''
     = (None,
        \<lparr>df_index = [1, 2, 3, 4],
         df_columns = [(''a'', map Fin [2, 3, 4, 5]), (''b'', map Fin [20, 30, 40, 50])],
         df_int_columns = []\<rparr>,
        [Removed (IQROut [(0, Fin 100)]), Separator])"
  by (simp add: repeated_df_def scenario_df_def handle_eval iqr_eval)

text \<open>
  C3, amended: on a data frame whose row labels are distinct, \<open>handle_outliers\<close> with
  action \<open>remove\<close> on column \<open>A\<close> deletes every flagged row from the whole data frame:
  a flagged label is gone from the index and has no value left in any column \<open>B\<close>, and
  a label that is not flagged stays with its value in every column. The flagged rows are
  the outliers that the chosen method finds in column \<open>A\<close>.
\<close>

theorem remove_drops_rows_in_every_column:
  assumes "wf_df df" and "distinct (df_index df)"
    and "detect L using df A = Some (upper, lower, outs)"
    and "handle_outliers L df (Str A) using ''remove'' = (e, df', out)"
  shows "e = None \<and> wf_df df' \<and> map fst (df_columns df') = map fst (df_columns df) \<and>
    (\<forall>r\<in>set (df_index df).
       if r \<in> set (out_index outs)
       then r \<notin> set (df_index df') \<and> (\<forall>B. cell df' B r = None)
       else r \<in> set (df_index df') \<and> (\<forall>B. cell df' B r = cell df B r)) \<and>
    (A \<noteq> ''all_the_columns'' \<longrightarrow>
       (\<forall>vs. map_of (df_columns df) A = Some vs \<longrightarrow>
          outs = IQROut (snd (snd (iqr_calc L (zip (df_index df) vs)))) \<or>
          outs = ZOut (snd (snd (z_calc L (zip (df_index df) vs))))))"
proof -
  from handle_remove [OF assms(3)] assms(4)
  have e: "e = None" and d: "df' = drop_rows df (out_index outs)"
    by simp_all
  have "wf_df df'" unfolding d by (rule wf_drop_rows [OF assms(1)])
  moreover have "map fst (df_columns df') = map fst (df_columns df)"
    unfolding d by (rule drop_rows_names)
  moreover have "\<forall>r\<in>set (df_index df).
       if r \<in> set (out_index outs)
       then r \<notin> set (df_index df') \<and> (\<forall>B. cell df' B r = None)
       else r \<in> set (df_index df') \<and> (\<forall>B. cell df' B r = cell df B r)"
    unfolding d by (simp add: drop_rows_index cell_drop_rows [OF assms(1)])
  moreover have "A \<noteq> ''all_the_columns'' \<longrightarrow>
       (\<forall>vs. map_of (df_columns df) A = Some vs \<longrightarrow>
          outs = IQROut (snd (snd (iqr_calc L (zip (df_index df) vs)))) \<or>
          outs = ZOut (snd (snd (z_calc L (zip (df_index df) vs)))))"
  proof (intro impI allI)
    fix vs
    assume "A \<noteq> ''all_the_columns''" and "map_of (df_columns df) A = Some vs"
    from detect_column [OF assms(3) this]
    show "outs = IQROut (snd (snd (iqr_calc L (zip (df_index df) vs)))) \<or>
          outs = ZOut (snd (snd (z_calc L (zip (df_index df) vs))))"
      by (auto split: prod.splits)
  qed
  ultimately show ?thesis using e by blast
qed

theorem remove_drops_rows_in_every_column_witness:
  "handle_outliers exact_lib scenario_df (Str ''a'') ''IQR'' ''remove''
     = (None,
        \<lparr>df_index = [0, 1, 2, 3, 4],
         df_columns = [(''a'', map Fin [1, 2, 3, 4, 5]), (''b'', map Fin [10, 20, 30, 40, 50])],
         df_int_columns = []\<rparr>,
        [Removed (IQROut [(5, Fin 100)]), Separator]) \<and>
   cell scenario_df ''b'' 5 = Some (Fin 60) \<and>
   cell \<lparr>df_index = [0, 1, 2, 3, 4],
         df_columns = [(''a'', map Fin [1, 2, 3, 4, 5]), (''b'', map Fin [10, 20, 30, 40, 50])],
         df_int_columns = []\<rparr> ''b'' 5 = None \<and>
   cell \<lparr>df_index = [0, 1, 2, 3, 4],
         df_columns = [(''a'', map Fin [1, 2, 3, 4, 5]), (''b'', map Fin [10, 20, 30, 40, 50])],
         df_int_columns = []\<rparr> ''b'' 4
     = cell scenario_df ''b'' 4"
proof -
  have h: "handle_outliers exact_lib scenario_df (Str ''a'') ''IQR'' ''remove''
     = (None,
        \<lparr>df_index = [0, 1, 2, 3, 4],
         df_columns = [(''a'', map Fin [1, 2, 3, 4, 5]), (''b'', map Fin [10, 20, 30, 40, 50])],
         df_int_columns = []\<rparr>,
        [Removed (IQROut [(5, Fin 100)]), Separator])"
    unfolding handle_remove [OF scenario_detect]
    by (simp add: drop_rows_def scenario_df_def select_def)
  have d: "distinct (df_index scenario_df)" by (simp add: scenario_df_def)
  have i: "(5 :: int) \<in> set (df_index scenario_df)" "(4 :: int) \<in> set (df_index scenario_df)"
    by (simp_all add: scenario_df_def)
  note t = remove_drops_rows_in_every_column [OF wf_scenario d scenario_detect h,
      THEN conjunct2, THEN conjunct2, THEN conjunct2, THEN conjunct1]
  from bspec [OF t i(1)] bspec [OF t i(2)] h show ?thesis
    by (simp add: cell_def scenario_df_def)
qed





section \<open>Repeated calls\<close>

text \<open>
  C5, as stated, fails: the second call computes its bounds from the compressed column.
  On the column 0, 0, 0, 100 the IQR method first clamps 100 to 62.5; the quartiles of
  0, 0, 0, 62.5 give the upper bound 39.0625, and the second call clamps again.
\<close>

theorem compress_twice_counterexample:
  "handle_outliers exact_lib skewed_df (Str ''a'') ''IQR'' ''compress''
     = (None,
        \<lparr>df_index = [0, 1, 2, 3], df_columns = [(''a'', map Fin [0, 0, 0, 125 / 2])],
         df_int_columns = []\<rparr>,
        [Compressed ''a'' (IQROut [(3, Fin 100)]), Separator]) \<and>
   handle_outliers exact_lib
       \<lparr>df_index = [0, 1, 2, 3], df_columns = [(''a'', map Fin [0, 0, 0, 125 / 2])],
        df_int_columns = []\<rparr>
       (Str ''a'') ''IQR'' ''compress''
     = (None,
        \<lparr>df_index = [0, 1, 2, 3], df_columns = [(''a'', map Fin [0, 0, 0, 625 / 16])],
         df_int_columns = []\<rparr>,
        [Compressed ''a'' (IQROut [(3, Fin (125 / 2))]), Separator])"
  by (simp add: skewed_df_def handle_eval iqr_eval)

text \<open>
  C5, amended: after \<open>handle_outliers\<close> with action \<open>compress\<close> on a float64 column,
  every value of the column lies within the bounds that call computed (the lower bound
  not being above the upper one). A second call with the same method computes its bounds
  from the compressed column: it leaves the data frame identical when every value of the
  compressed column lies within those new bounds, and only then (the new lower bound not
  being above the new upper one).
\<close>

theorem compress_twice_within_bounds:
  assumes "wf_df df" and "map_of (df_columns df) c = Some vs"
    and "c \<notin> set (df_int_columns df)"
    and "detect L using df c = Some (upper, lower, outs)"
    and "handle_outliers L df (Str c) using ''compress'' = (e, df1, out)"
  shows "map_of (df_columns df1) c \<noteq> None \<and>
    (\<forall>vs1. map_of (df_columns df1) c = Some vs1 \<longrightarrow>
       (\<not> nlt upper lower \<longrightarrow> (\<forall>v\<in>set vs1. \<not> ngt v upper \<and> \<not> nlt v lower)) \<and>
       (\<forall>upper2 lower2 outs2. detect L using df1 c = Some (upper2, lower2, outs2) \<longrightarrow>
          ((\<forall>v\<in>set vs1. \<not> ngt v upper2 \<and> \<not> nlt v lower2) \<longrightarrow>
             fst (snd (handle_outliers L df1 (Str c) using ''compress'')) = df1) \<and>
          (\<not> nlt upper2 lower2 \<longrightarrow>
             fst (snd (handle_outliers L df1 (Str c) using ''compress'')) = df1 \<longrightarrow>
             (\<forall>v\<in>set vs1. \<not> ngt v upper2 \<and> \<not> nlt v lower2))))"
proof -
  from handle_compress [OF assms(4,1,2,3)] assms(5)
  have d: "df1 = map_column df c (\<lambda>ws. clip_below lower (clip_above upper ws))"
    by simp
  have wf1: "wf_df df1" unfolding d by (rule wf_map_column [OF assms(1)]) simp
  have n1: "c \<notin> set (df_int_columns df1)" using assms(3) by (simp add: d)
  have col: "map_of (df_columns df1) c = Some (clip_below lower (clip_above upper vs))"
    unfolding d by (simp add: map_column_lookup assms(2))
  have first: "\<not> nlt upper lower \<longrightarrow>
      (\<forall>v\<in>set (clip_below lower (clip_above upper vs)). \<not> ngt v upper \<and> \<not> nlt v lower)"
    using clip_within by blast
  have second: "((\<forall>v\<in>set vs1. \<not> ngt v upper2 \<and> \<not> nlt v lower2) \<longrightarrow>
         fst (snd (handle_outliers L df1 (Str c) using ''compress'')) = df1) \<and>
      (\<not> nlt upper2 lower2 \<longrightarrow>
         fst (snd (handle_outliers L df1 (Str c) using ''compress'')) = df1 \<longrightarrow>
         (\<forall>v\<in>set vs1. \<not> ngt v upper2 \<and> \<not> nlt v lower2))"
    if c1: "map_of (df_columns df1) c = Some vs1"
      and d2: "detect L using df1 c = Some (upper2, lower2, outs2)"
    for vs1 upper2 lower2 outs2
  proof -
    have same: "fst (snd (handle_outliers L df1 (Str c) using ''compress'')) = df1
        \<longleftrightarrow> clip_below lower2 (clip_above upper2 vs1) = vs1"
      unfolding handle_compress [OF d2 wf1 c1 n1]
      using map_column_fixed_iff [OF wf1 c1] by simp
    show ?thesis
    proof (intro conjI impI)
      assume "\<forall>v\<in>set vs1. \<not> ngt v upper2 \<and> \<not> nlt v lower2"
      then show "fst (snd (handle_outliers L df1 (Str c) using ''compress'')) = df1"
        unfolding same by (rule clip_fixed)
    next
      assume o: "\<not> nlt upper2 lower2"
        and "fst (snd (handle_outliers L df1 (Str c) using ''compress'')) = df1"
      then show "\<forall>v\<in>set vs1. \<not> ngt v upper2 \<and> \<not> nlt v lower2"
        unfolding same clip_fixed_iff [OF o] by simp
    qed
  qed
  have all: "(\<not> nlt upper lower \<longrightarrow> (\<forall>v\<in>set vs1. \<not> ngt v upper \<and> \<not> nlt v lower)) \<and>
       (\<forall>upper2 lower2 outs2. detect L using df1 c = Some (upper2, lower2, outs2) \<longrightarrow>
          ((\<forall>v\<in>set vs1. \<not> ngt v upper2 \<and> \<not> nlt v lower2) \<longrightarrow>
             fst (snd (handle_outliers L df1 (Str c) using ''compress'')) = df1) \<and>
          (\<not> nlt upper2 lower2 \<longrightarrow>
             fst (snd (handle_outliers L df1 (Str c) using ''compress'')) = df1 \<longrightarrow>
             (\<forall>v\<in>set vs1. \<not> ngt v upper2 \<and> \<not> nlt v lower2)))"
    if c1: "map_of (df_columns df1) c = Some vs1" for vs1
  proof -
    from c1 col have v1: "vs1 = clip_below lower (clip_above upper vs)" by simp
    show ?thesis
    proof (intro conjI allI impI)
      assume "\<not> nlt upper lower"
      with first show "\<forall>v\<in>set vs1. \<not> ngt v upper \<and> \<not> nlt v lower"
        unfolding v1 by blast
    next
      fix upper2 lower2 outs2
      assume d2: "detect L using df1 c = Some (upper2, lower2, outs2)"
        and "\<forall>v\<in>set vs1. \<not> ngt v upper2 \<and> \<not> nlt v lower2"
      with second [OF c1 d2]
      show "fst (snd (handle_outliers L df1 (Str c) using ''compress'')) = df1" by blast
    next
      fix upper2 lower2 outs2
      assume d2: "detect L using df1 c = Some (upper2, lower2, outs2)"
        and "\<not> nlt upper2 lower2"
        and "fst (snd (handle_outliers L df1 (Str c) using ''compress'')) = df1"
      with second [OF c1 d2]
      show "\<forall>v\<in>set vs1. \<not> ngt v upper2 \<and> \<not> nlt v lower2" by blast
    qed
  qed
  from col have "map_of (df_columns df1) c \<noteq> None" by simp
  with all show ?thesis by blast
qed

theorem compress_twice_within_bounds_witness:
  "handle_outliers exact_lib scenario_df (Str ''a'') ''IQR'' ''compress''
     = (None,
        \<lparr>df_index = [0, 1, 2, 3, 4, 5],
         df_columns = [(''a'', map Fin [1, 2, 3, 4, 5, 17 / 2]),
                       (''b'', map Fin [10, 20, 30, 40, 50, 60])],
         df_int_columns = []\<rparr>,
        [Compressed ''a'' (IQROut [(5, Fin 100)]), Separator]) \<and>
   fst (snd (handle_outliers exact_lib
       \<lparr>df_index = [0, 1, 2, 3, 4, 5],
        df_columns = [(''a'', map Fin [1, 2, 3, 4, 5, 17 / 2]),
                      (''b'', map Fin [10, 20, 30, 40, 50, 60])],
        df_int_columns = []\<rparr>
       (Str ''a'') ''IQR'' ''compress''))
     = \<lparr>df_index = [0, 1, 2, 3, 4, 5],
        df_columns = [(''a'', map Fin [1, 2, 3, 4, 5, 17 / 2]),
                      (''b'', map Fin [10, 20, 30, 40, 50, 60])],
        df_int_columns = []\<rparr>"
proof -
  have h: "handle_outliers exact_lib scenario_df (Str ''a'') ''IQR'' ''compress''
     = (None,
        \<lparr>df_index = [0, 1, 2, 3, 4, 5],
         df_columns = [(''a'', map Fin [1, 2, 3, 4, 5, 17 / 2]),
                       (''b'', map Fin [10, 20, 30, 40, 50, 60])],
         df_int_columns = []\<rparr>,
        [Compressed ''a'' (IQROut [(5, Fin 100)]), Separator])"
    unfolding handle_compress [OF scenario_detect wf_scenario scenario_column_a scenario_float]
    by (simp add: map_column_def scenario_df_def clip_above_def clip_below_def ngt_def)
  have c1: "map_of (df_columns
       \<lparr>df_index = [0, 1, 2, 3, 4, 5],
        df_columns = [(''a'', map Fin [1, 2, 3, 4, 5, 17 / 2]),
                      (''b'', map Fin [10, 20, 30, 40, 50, 60])],
        df_int_columns = []\<rparr>)
       ''a'' = Some (map Fin [1, 2, 3, 4, 5, 17 / 2])"
    by simp
  have w: "\<forall>v\<in>set (map Fin [1, 2, 3, 4, 5, 17 / 2]).
      \<not> ngt v (Fin (17 / 2)) \<and> \<not> nlt v (Fin (- (3 / 2)))"
    by (simp add: ngt_def)
  note t = compress_twice_within_bounds
      [OF wf_scenario scenario_column_a scenario_float scenario_detect h,
      THEN conjunct2, rule_format, OF c1, THEN conjunct2, rule_format,
      OF scenario_compressed_detect, THEN conjunct1, THEN mp, OF w]
  from t h show ?thesis by blast
qed

text \<open>
  C6, as stated, fails: the second call computes its bounds from the rows that are left.
  On the column 1, 2, 3, 4, 5, 9, 100 the IQR method first removes the row of 100 (upper
  bound 13.75); the quartiles of 1, 2, 3, 4, 5, 9 give the upper bound 8.5, and the second
  call flags and removes the row of 9.
\<close>

theorem remove_twice_counterexample:
  "handle_outliers exact_lib tail_df (Str ''a'') ''IQR'' ''remove''
     = (None,
        \<lparr>df_index = [0, 1, 2, 3, 4, 5], df_columns = [(''a'', map Fin [1, 2, 3, 4, 5, 9])],
         df_int_columns = []\<rparr>,
        [Removed (IQROut [(6, Fin 100)]), Separator]) \<and>
   handle_outliers exact_lib
       \<lparr>df_index = [0, 1, 2, 3, 4, 5], df_columns = [(''a'', map Fin [1, 2, 3, 4, 5, 9])],
        df_int_columns = []\<rparr>
       (Str ''a'') ''IQR'' ''remove''
     = (None,
        \<lparr>df_index = [0, 1, 2, 3, 4], df_columns = [(''a'', map Fin [1, 2, 3, 4, 5])],
         df_int_columns = []\<rparr>,
        [Removed (IQROut [(5, Fin 9)]), Separator])"
  by (simp add: tail_df_def handle_eval iqr_eval)

text \<open>
  C6, amended: after \<open>handle_outliers\<close> with action \<open>remove\<close>, the rows left are those
  whose label the call did not flag; with the IQR method every value left in the column
  lies within the bounds that call computed. A second call with the same method computes
  its bounds from the rows that are left, and when its outlier set is empty it removes no
  row; with the IQR method its outlier set is empty exactly when every value left lies
  within the new bounds.
\<close>

theorem remove_twice_recomputed_bounds:
  assumes "wf_df df" and "c \<noteq> ''all_the_columns''"
    and "map_of (df_columns df) c = Some vs"
    and "detect L using df c = Some (upper, lower, outs)"
    and "handle_outliers L df (Str c) using ''remove'' = (e, df1, out)"
  shows "map_of (df_columns df1) c \<noteq> None \<and>
    (\<forall>vs1. map_of (df_columns df1) c = Some vs1 \<longrightarrow>
       zip (df_index df1) vs1
         = filter (\<lambda>(r, v). r \<notin> set (out_index outs)) (zip (df_index df) vs) \<and>
       (str_upper (str_strip using) = ''IQR'' \<longrightarrow>
          (\<forall>v\<in>set vs1. \<not> ngt v upper \<and> \<not> nlt v lower)) \<and>
       (\<forall>upper2 lower2 outs2. detect L using df1 c = Some (upper2, lower2, outs2) \<longrightarrow>
          (out_index outs2 = [] \<longrightarrow>
             handle_outliers L df1 (Str c) using ''remove''
               = (None, df1, [Removed outs2, Separator])) \<and>
          (str_upper (str_strip using) = ''IQR'' \<longrightarrow>
             (out_index outs2 = []
                \<longleftrightarrow> (\<forall>v\<in>set vs1. \<not> ngt v upper2 \<and> \<not> nlt v lower2)))))"
proof -
  from handle_remove [OF assms(4)] assms(5)
  have d: "df1 = drop_rows df (out_index outs)" by simp
  have wf1: "wf_df df1" unfolding d by (rule wf_drop_rows [OF assms(1)])
  have len: "length (df_index df) = length vs" using wf_length [OF assms(1,3)] by simp
  have col: "map_of (df_columns df1) c
      = Some (map snd (filter (\<lambda>(r, v). r \<notin> set (out_index outs)) (zip (df_index df) vs)))"
    unfolding d by (simp add: drop_rows_column [OF assms(1)] assms(3))
  have rows: "zip (df_index df1)
        (map snd (filter (\<lambda>(r, v). r \<notin> set (out_index outs)) (zip (df_index df) vs)))
      = filter (\<lambda>(r, v). r \<notin> set (out_index outs)) (zip (df_index df) vs)"
    unfolding d drop_rows_index by (rule zip_filter_label [OF len])
  have first: "\<forall>v\<in>set (map snd (filter (\<lambda>(r, v). r \<notin> set (out_index outs))
      (zip (df_index df) vs))). \<not> ngt v upper \<and> \<not> nlt v lower"
    if m: "str_upper (str_strip using) = ''IQR''"
  proof
    fix v
    assume "v \<in> set (map snd (filter (\<lambda>(r, v). r \<notin> set (out_index outs))
      (zip (df_index df) vs)))"
    then obtain r where rv: "(r, v) \<in> set (zip (df_index df) vs)"
      and nf: "r \<notin> set (out_index outs)" by auto
    have fl: "out_index outs = map fst (filter (\<lambda>(r, v). nlt v lower \<or> ngt v upper)
        (zip (df_index df) vs))"
      unfolding detect_IQR_rows [OF assms(4) m assms(2,3)] by simp
    show "\<not> ngt v upper \<and> \<not> nlt v lower"
    proof (rule ccontr)
      assume "\<not> (\<not> ngt v upper \<and> \<not> nlt v lower)"
      then have "nlt v lower \<or> ngt v upper" by blast
      with rv have "(r, v) \<in> set (filter (\<lambda>(r, v). nlt v lower \<or> ngt v upper)
          (zip (df_index df) vs))" by simp
      then have "r \<in> set (out_index outs)" unfolding fl by force
      with nf show False by simp
    qed
  qed
  have second: "(out_index outs2 = [] \<longrightarrow>
         handle_outliers L df1 (Str c) using ''remove''
           = (None, df1, [Removed outs2, Separator])) \<and>
      (str_upper (str_strip using) = ''IQR'' \<longrightarrow>
         (out_index outs2 = []
            \<longleftrightarrow> (\<forall>v\<in>set vs1. \<not> ngt v upper2 \<and> \<not> nlt v lower2)))"
    if c1: "map_of (df_columns df1) c = Some vs1"
      and d2: "detect L using df1 c = Some (upper2, lower2, outs2)"
    for vs1 upper2 lower2 outs2
  proof -
    have len1: "length (df_index df1) = length vs1" using wf_length [OF wf1 c1] by simp
    have a: "out_index outs2 = []
        \<longleftrightarrow> (\<forall>v\<in>set vs1. \<not> ngt v upper2 \<and> \<not> nlt v lower2)"
      if m: "str_upper (str_strip using) = ''IQR''"
    proof -
      have "out_index outs2 = [] \<longleftrightarrow>
          (\<forall>x\<in>set (zip (df_index df1) vs1).
             \<not> (nlt (snd x) lower2 \<or> ngt (snd x) upper2))"
        unfolding detect_IQR_rows [OF d2 m assms(2) c1]
        by (simp add: filter_empty_conv case_prod_unfold)
      also have "\<dots> \<longleftrightarrow> (\<forall>v\<in>snd ` set (zip (df_index df1) vs1).
             \<not> (nlt v lower2 \<or> ngt v upper2))"
        by blast
      also have "\<dots> \<longleftrightarrow> (\<forall>v\<in>set vs1. \<not> ngt v upper2 \<and> \<not> nlt v lower2)"
        unfolding set_zip_values [OF len1] by blast
      finally show ?thesis .
    qed
    have b: "handle_outliers L df1 (Str c) using ''remove''
           = (None, df1, [Removed outs2, Separator])" if "out_index outs2 = []"
      unfolding handle_remove [OF d2] using that drop_rows_none [OF wf1, of "[]"] by simp
    from a b show ?thesis by blast
  qed
  have all: "zip (df_index df1) vs1
         = filter (\<lambda>(r, v). r \<notin> set (out_index outs)) (zip (df_index df) vs) \<and>
       (str_upper (str_strip using) = ''IQR'' \<longrightarrow>
          (\<forall>v\<in>set vs1. \<not> ngt v upper \<and> \<not> nlt v lower)) \<and>
       (\<forall>upper2 lower2 outs2. detect L using df1 c = Some (upper2, lower2, outs2) \<longrightarrow>
          (out_index outs2 = [] \<longrightarrow>
             handle_outliers L df1 (Str c) using ''remove''
               = (None, df1, [Removed outs2, Separator])) \<and>
          (str_upper (str_strip using) = ''IQR'' \<longrightarrow>
             (out_index outs2 = []
                \<longleftrightarrow> (\<forall>v\<in>set vs1. \<not> ngt v upper2 \<and> \<not> nlt v lower2))))"
    if c1: "map_of (df_columns df1) c = Some vs1" for vs1
  proof -
    from c1 col have v1: "vs1 = map snd (filter (\<lambda>(r, v). r \<notin> set (out_index outs))
        (zip (df_index df) vs))" by simp
    show ?thesis
    proof (intro conjI allI impI)
      show "zip (df_index df1) vs1
         = filter (\<lambda>(r, v). r \<notin> set (out_index outs)) (zip (df_index df) vs)"
        unfolding v1 by (rule rows)
    next
      assume "str_upper (str_strip using) = ''IQR''"
      from first [OF this] show "\<forall>v\<in>set vs1. \<not> ngt v upper \<and> \<not> nlt v lower"
        unfolding v1 .
    next
      fix upper2 lower2 outs2
      assume d2: "detect L using df1 c = Some (upper2, lower2, outs2)"
        and "out_index outs2 = []"
      with second [OF c1 d2]
      show "handle_outliers L df1 (Str c) using ''remove''
               = (None, df1, [Removed outs2, Separator])" by blast
    next
      fix upper2 lower2 outs2
      assume d2: "detect L using df1 c = Some (upper2, lower2, outs2)"
        and "str_upper (str_strip using) = ''IQR''"
      with second [OF c1 d2]
      show "out_index outs2 = []
                \<longleftrightarrow> (\<forall>v\<in>set vs1. \<not> ngt v upper2 \<and> \<not> nlt v lower2)" by blast
    qed
  qed
  from col have "map_of (df_columns df1) c \<noteq> None" by simp
  with all show ?thesis by blast
qed

theorem remove_twice_recomputed_bounds_witness:
  "handle_outliers exact_lib scenario_df (Str ''a'') ''IQR'' ''remove''
     = (None,
        \<lparr>df_index = [0, 1, 2, 3, 4],
         df_columns = [(''a'', map Fin [1, 2, 3, 4, 5]), (''b'', map Fin [10, 20, 30, 40, 50])],
         df_int_columns = []\<rparr>,
        [Removed (IQROut [(5, Fin 100)]), Separator]) \<and>
   handle_outliers exact_lib
       \<lparr>df_index = [0, 1, 2, 3, 4],
        df_columns = [(''a'', map Fin [1, 2, 3, 4, 5]), (''b'', map Fin [10, 20, 30, 40, 50])],
        df_int_columns = []\<rparr>
       (Str ''a'') ''IQR'' ''remove''
     = (None,
        \<lparr>df_index = [0, 1, 2, 3, 4],
         df_columns = [(''a'', map Fin [1, 2, 3, 4, 5]), (''b'', map Fin [10, 20, 30, 40, 50])],
         df_int_columns = []\<rparr>,
        [Removed (IQROut []), Separator])"
proof -
  have h: "handle_outliers exact_lib scenario_df (Str ''a'') ''IQR'' ''remove''
     = (None,
        \<lparr>df_index = [0, 1, 2, 3, 4],
         df_columns = [(''a'', map Fin [1, 2, 3, 4, 5]), (''b'', map Fin [10, 20, 30, 40, 50])],
         df_int_columns = []\<rparr>,
        [Removed (IQROut [(5, Fin 100)]), Separator])"
    unfolding handle_remove [OF scenario_detect]
    by (simp add: drop_rows_def scenario_df_def select_def)
  have n: "''a'' \<noteq> ''all_the_columns''" by simp
  have c1: "map_of (df_columns
       \<lparr>df_index = [0, 1, 2, 3, 4],
        df_columns = [(''a'', map Fin [1, 2, 3, 4, 5]), (''b'', map Fin [10, 20, 30, 40, 50])],
        df_int_columns = []\<rparr>)
       ''a'' = Some (map Fin [1, 2, 3, 4, 5])"
    by simp
  have e: "out_index (IQROut []) = []" by simp
  note t = remove_twice_recomputed_bounds [OF wf_scenario n scenario_column_a scenario_detect h,
      THEN conjunct2, rule_format, OF c1, THEN conjunct2, THEN conjunct2, rule_format,
      OF scenario_removed_detect, THEN conjunct1, rule_format, OF e]
  from t h show ?thesis by blast
qed


section \<open>Unrecognised methods, actions and column names\<close>

text \<open>
  C8, as stated, fails: with a method that is neither \<open>Z\<close> nor \<open>IQR\<close> the variables
  \<open>upper\<close>, \<open>lower\<close> and \<open>outliers\<close> are never bound, and the default action
  \<open>compress\<close> reads \<open>upper\<close>: the call raises instead of returning silently.
\<close>

theorem unknown_method_counterexample:
  "handle_outliers exact_lib scenario_df (Str ''a'') ''range'' ''compress''
     = (Some (UnboundLocalError ''upper''), scenario_df, [])"
  by (simp add: handle_eval)

text \<open>
  C8, amended: with an action that is neither \<open>remove\<close> nor \<open>compress\<close>,
  \<open>handle_outliers\<close> does not change the data frame and prints nothing but the separator
  line of each column it gets through; when the method is neither \<open>Z\<close> nor \<open>IQR\<close>
  either, nothing is computed and nothing is raised, and there is one separator line for
  each column.
\<close>

theorem unrecognized_method_or_action:
  "(action \<noteq> ''remove'' \<and> action \<noteq> ''compress'' \<longrightarrow>
      fst (snd (handle_outliers L df columns using action)) = df \<and>
      set (snd (snd (handle_outliers L df columns using action))) \<subseteq> {Separator}) \<and>
   (str_upper (str_strip using) \<noteq> ''IQR'' \<and> str_upper (str_strip using) \<noteq> ''Z'' \<and>
    action \<noteq> ''remove'' \<and> action \<noteq> ''compress'' \<longrightarrow>
      handle_outliers L df columns using action
        = (None, df, replicate (length (to_list columns)) Separator))"
proof -
  have a: "handle_outliers L df columns using action
           = (None, df, replicate (length (to_list columns)) Separator)"
    if "str_upper (str_strip using) \<noteq> ''IQR''" "str_upper (str_strip using) \<noteq> ''Z''"
      "action \<noteq> ''remove''" "action \<noteq> ''compress''"
    by (simp add: handle_outliers_def handle_loop_noop [OF that])
  have d: "fst (snd (handle_outliers L df columns using action)) = df \<and>
      set (snd (snd (handle_outliers L df columns using action))) \<subseteq> {Separator}"
    if "action \<noteq> ''remove''" "action \<noteq> ''compress''"
  proof -
    obtain e s' where h: "handle_loop L using action (to_list columns)
        \<lparr>st_df = df, st_locals = None, st_out = []\<rparr> = (e, s')"
      by (cases "handle_loop L using action (to_list columns)
        \<lparr>st_df = df, st_locals = None, st_out = []\<rparr>")
    from handle_loop_frame [OF that h] h show ?thesis
      by (simp add: handle_outliers_def)
  qed
  from a d show ?thesis by blast
qed

theorem unrecognized_method_or_action_witness:
  "handle_outliers exact_lib scenario_df (Lst [''a'', ''b'']) ''range'' ''squash''
     = (None, scenario_df, [Separator, Separator]) \<and>
   fst (snd (handle_outliers exact_lib scenario_df (Lst [''a'', ''b'']) ''IQR'' ''squash'')) = scenario_df"
proof -
  have s: "''squash'' \<noteq> ''remove'' \<and> ''squash'' \<noteq> ''compress''" by simp
  from unrecognized_method_or_action [of "''squash''" exact_lib scenario_df "Lst [''a'', ''b'']" "''range''"]
    unrecognized_method_or_action [of "''squash''" exact_lib scenario_df "Lst [''a'', ''b'']" "''IQR''"]
    method_range s
  show ?thesis by (simp add: numeral_2_eq_2)
qed

text \<open>
  C10, as stated, fails: \<open>handle_outliers\<close> passes the string on to the outlier function,
  which does normalize the sentinel. With action \<open>remove\<close> the call raises nothing: it
  removes the outliers of the first column of the data frame.
\<close>

theorem sentinel_selector_counterexample:
  "handle_outliers exact_lib scenario_df (Str ''all_the_columns'') ''IQR'' ''remove''
     = (None,
        \<lparr>df_index = [0, 1, 2, 3, 4],
         df_columns = [(''a'', map Fin [1, 2, 3, 4, 5]), (''b'', map Fin [10, 20, 30, 40, 50])],
         df_int_columns = []\<rparr>,
        [Removed (IQROut [(5, Fin 100)]), Separator])"
  by (simp add: scenario_df_def handle_eval iqr_eval)

text \<open>
  C10, amended: \<open>handle_outliers\<close> does not normalize the selector beyond turning one
  string into a one-element list, whereas \<open>outliers_z_score\<close> and \<open>outliers_IQR\<close> take
  the sentinel for all columns. With a method \<open>Z\<close> or \<open>IQR\<close>, a string that names no
  column and is not the sentinel fails with a column-lookup error and the data frame
  unchanged; so does the sentinel with action \<open>compress\<close> on a data frame that has a
  column.
\<close>

theorem string_selector_is_one_column_name:
  "handle_outliers L df (Str s) using action = handle_outliers L df (Lst [s]) using action \<and>
   outliers_z_score L df (Str ''all_the_columns'') mode
     = outliers_z_score L df (Lst (map fst (df_columns df))) mode \<and>
   outliers_IQR L df (Str ''all_the_columns'') mode
     = outliers_IQR L df (Lst (map fst (df_columns df))) mode \<and>
   ((str_upper (str_strip using) = ''IQR'' \<or> str_upper (str_strip using) = ''Z'') \<and>
    map_of (df_columns df) s = None \<longrightarrow>
      (s \<noteq> ''all_the_columns'' \<longrightarrow>
         handle_outliers L df (Str s) using action = (Some (KeyError s), df, [])) \<and>
      (s = ''all_the_columns'' \<and> df_columns df \<noteq> [] \<and> action = ''compress'' \<longrightarrow>
         handle_outliers L df (Str s) using action = (Some (KeyError s), df, [])))"
proof -
  have a: "handle_outliers L df (Str s) using action = handle_outliers L df (Lst [s]) using action"
    by (simp add: handle_outliers_def)
  have b: "outliers_z_score L df (Str ''all_the_columns'') mode
     = outliers_z_score L df (Lst (map fst (df_columns df))) mode"
    by (simp add: outliers_z_score_def)
  have c: "outliers_IQR L df (Str ''all_the_columns'') mode
     = outliers_IQR L df (Lst (map fst (df_columns df))) mode"
    by (simp add: outliers_IQR_def)
  have d: "handle_outliers L df (Str s) using action = (Some (KeyError s), df, [])"
    if "str_upper (str_strip using) = ''IQR'' \<or> str_upper (str_strip using) = ''Z''"
      "map_of (df_columns df) s = None" "s \<noteq> ''all_the_columns''"
    by (rule handle_missing_column [OF that])
  have e: "handle_outliers L df (Str s) using action = (Some (KeyError s), df, [])"
    if m: "str_upper (str_strip using) = ''IQR'' \<or> str_upper (str_strip using) = ''Z''"
      and n: "map_of (df_columns df) s = None" and s: "s = ''all_the_columns''"
      and ne: "df_columns df \<noteq> []" and ac: "action = ''compress''"
  proof -
    from ne obtain c0 vs0 rest where "df_columns df = (c0, vs0) # rest"
      by (cases "df_columns df") auto
    from handle_sentinel_compress [OF m n [unfolded s] this] show ?thesis
      unfolding s ac .
  qed
  from a b c d e show ?thesis by blast
qed

theorem string_selector_is_one_column_name_witness:
  "handle_outliers exact_lib scenario_df (Str ''zz'') ''IQR'' ''remove''
     = (Some (KeyError ''zz''), scenario_df, []) \<and>
   handle_outliers exact_lib scenario_df (Str ''all_the_columns'') ''IQR'' ''compress''
     = (Some (KeyError ''all_the_columns''), scenario_df, [])"
proof -
  have m: "str_upper (str_strip ''IQR'') = ''IQR'' \<or> str_upper (str_strip ''IQR'') = ''Z''"
    by (simp add: method_IQR)
  have n: "map_of (df_columns scenario_df) ''zz'' = None"
    "map_of (df_columns scenario_df) ''all_the_columns'' = None"
    by (simp_all add: scenario_df_def)
  have z: "''zz'' \<noteq> ''all_the_columns''" by simp
  have ne: "df_columns scenario_df \<noteq> []" by (simp add: scenario_df_def)
  from string_selector_is_one_column_name
      [of exact_lib scenario_df "''zz''" "''IQR''" "''remove''" "''print''"]
    string_selector_is_one_column_name
      [of exact_lib scenario_df "''all_the_columns''" "''IQR''" "''compress''" "''print''"]
    m n z ne
  show ?thesis by blast
qed

end
